theory Spec2Isabelle
  imports Main
begin

section \<open>The info view of lean4-infoview: data\<close>

text \<open>
  The development embeds \<^verbatim>\<open>src/lean4-infoview/src/infoview/info.tsx\<close>: the hook
  \<^verbatim>\<open>useDelayedThrottled\<close>, the component \<^verbatim>\<open>InfoAux\<close> with its fetch cycle, and the
  component \<^verbatim>\<open>InfoDisplay\<close>. React state cells and refs are fields of records, a
  render is a function on these records, and every asynchronous continuation of the
  source (a timer firing, a request settling, a click) is one event of a step function.
\<close>

record DocumentPosition =
  uri :: string
  line :: nat
  character :: nat

text \<open>\<^verbatim>\<open>type InfoStatus = 'loading' | 'updating' | 'error' | 'ready'\<close>; the constructors are
  capitalised because \<open>error\<close> is also a field of the display props.\<close>

datatype InfoStatus = Loading | Updating | Error | Ready

datatype InfoKind = Cursor | Pin

section \<open>Processing state and the scheduling delay\<close>


text \<open>The first argument of \<^verbatim>\<open>useDelayedThrottled(serverIsProcessing ? 500 : 50, ...)\<close>.\<close>

definition triggerUpdate_ms :: "bool \<Rightarrow> nat" where
  "triggerUpdate_ms serverIsProcessing = (if serverIsProcessing then 500 else 50)"

section \<open>The scheduler: useDelayedThrottled\<close>

text \<open>
  The hook keeps two refs, \<^verbatim>\<open>waiting\<close> and \<^verbatim>\<open>callbackRef\<close>. The timers armed by
  \<^verbatim>\<open>setTimeout\<close> are kept as a list of absolute deadlines; each timer remembers who
  awaits the promise that the arming call returned: nobody (\<^verbatim>\<open>void triggerUpdate()\<close>)
  or \<^verbatim>\<open>triggerDisplayUpdate\<close> of \<^verbatim>\<open>InfoDisplay\<close>.
\<close>

datatype awaiter = Detached | DisplayUpdate

record 'cb throttle =
  waiting :: bool
  callbackRef :: "'cb option"
  timers :: "(nat \<times> awaiter) list"

text \<open>What the promise returned by one call of the throttled function does: it stays
  pending until the armed timer's callback has finished, or it resolves at once.\<close>

datatype trigger_result = AwaitsCycle | ResolvedImmediately

text \<open>The body of the hook at a render: \<^verbatim>\<open>callbackRef.current = cb\<close>.\<close>

definition useDelayedThrottled :: "'cb \<Rightarrow> 'cb throttle \<Rightarrow> 'cb throttle" where
  "useDelayedThrottled cb th = th\<lparr>callbackRef := Some cb\<rparr>"

text \<open>The function the hook returns, called at time \<open>now\<close> from a closure whose delay
  is \<open>ms\<close>.\<close>

definition trigger :: "nat \<Rightarrow> awaiter \<Rightarrow> nat \<Rightarrow> 'cb throttle \<Rightarrow> 'cb throttle \<times> trigger_result" where
  "trigger now w ms th =
     (if \<not> waiting th
      then (th\<lparr>waiting := True, timers := timers th @ [(now + ms, w)]\<rparr>, AwaitsCycle)
      else (th, ResolvedImmediately))"

text \<open>The timer callback of the first armed timer: \<^verbatim>\<open>waiting.current = false\<close>, then
  the callback held by \<^verbatim>\<open>callbackRef\<close> at that moment is started, if there is one. The
  result names the callback to run and who awaits it.\<close>

definition timeout :: "'cb throttle \<Rightarrow> 'cb throttle \<times> ('cb \<times> awaiter) option" where
  "timeout th =
     (case timers th of
        [] \<Rightarrow> (th, None)
      | (d, w) # ts \<Rightarrow>
          (th\<lparr>waiting := False, timers := ts\<rparr>,
           case callbackRef th of None \<Rightarrow> None | Some cb \<Rightarrow> Some (cb, w)))"

text \<open>
  One call in the sense of the specification's \<open>trigger(requestedAction)\<close>: a render
  registers the action \<open>call_action\<close> with delay \<open>call_ms\<close>, then the returned function
  is called, \<open>call_elapsed\<close> time-units after the previous call.
\<close>

record 'cb call =
  call_elapsed :: nat
  call_action :: 'cb
  call_ms :: nat
  call_awaiter :: awaiter

fun calls :: "nat \<Rightarrow> 'cb call list \<Rightarrow> 'cb throttle \<Rightarrow> 'cb throttle \<times> trigger_result list" where
  "calls now [] th = (th, [])"
| "calls now (c # cs) th =
     (let (th1, r) = trigger (now + call_elapsed c) (call_awaiter c) (call_ms c)
                         (useDelayedThrottled (call_action c) th);
          (th2, rs) = calls (now + call_elapsed c) cs th1
      in (th2, r # rs))"

section \<open>Thrown values\<close>

text \<open>
  The \<^verbatim>\<open>catch\<close> block and \<^verbatim>\<open>onError\<close> read three things of the thrown value \<^verbatim>\<open>err\<close>:
  whether it is a string, its property \<^verbatim>\<open>err?.code\<close>, and \<^verbatim>\<open>JSON.stringify(err)\<close>. A
  value that is not a string is represented by the latter two: the code when it is a
  number (\<open>None\<close> otherwise, also for \<^verbatim>\<open>undefined\<close> and \<^verbatim>\<open>null\<close>), and the serialisation
  (\<open>None\<close> when \<^verbatim>\<open>JSON.stringify\<close> returns \<^verbatim>\<open>undefined\<close>).
\<close>

datatype js_value = JsString string | JsOther "int option" "string option"

fun err_code :: "js_value \<Rightarrow> int option" where
  "err_code (JsString x) = None"
| "err_code (JsOther c j) = c"

text \<open>\<^verbatim>\<open>const errS = typeof err === 'string' ? err : JSON.stringify(err)\<close>\<close>

fun errS :: "js_value \<Rightarrow> string option" where
  "errS (JsString x) = Some x"
| "errS (JsOther c j) = j"

section \<open>InfoAux: state cells, commit and error guard\<close>

text \<open>The object built by \<^verbatim>\<open>mkDisplayProps\<close>; the callback \<^verbatim>\<open>onPin\<close> of the props is
  left out.\<close>

record ('g, 't) DisplayProps =
  kind :: InfoKind
  pos :: DocumentPosition
  goals :: "'g option"
  termGoal :: "'t option"
  error :: "string option"

text \<open>The props of \<^verbatim>\<open>InfoDisplay\<close>: \<^verbatim>\<open>{...displayProps}\<close> with \<^verbatim>\<open>status\<close> and
  \<^verbatim>\<open>messages\<close> added.\<close>

record ('g, 't, 'm) InfoDisplayProps = "('g, 't) DisplayProps" +
  status :: InfoStatus
  messages :: "'m list"

text \<open>The six \<^verbatim>\<open>React.useState\<close> cells of \<^verbatim>\<open>InfoAux\<close>. The first four carry the prefix
  \<open>st_\<close> to keep them apart from the fields of the props.\<close>

record ('g, 't) InfoAux =
  st_status :: InfoStatus
  st_goals :: "'g option"
  st_termGoal :: "'t option"
  st_error :: "string option"
  displayProps :: "('g, 't) DisplayProps"
  shouldUpdateDisplay :: bool

definition setStatus :: "InfoStatus \<Rightarrow> ('g, 't) InfoAux \<Rightarrow> ('g, 't) InfoAux" where
  "setStatus v a = a\<lparr>st_status := v\<rparr>"

definition setGoals :: "'g option \<Rightarrow> ('g, 't) InfoAux \<Rightarrow> ('g, 't) InfoAux" where
  "setGoals v a = a\<lparr>st_goals := v\<rparr>"

definition setTermGoal :: "'t option \<Rightarrow> ('g, 't) InfoAux \<Rightarrow> ('g, 't) InfoAux" where
  "setTermGoal v a = a\<lparr>st_termGoal := v\<rparr>"

definition setError :: "string option \<Rightarrow> ('g, 't) InfoAux \<Rightarrow> ('g, 't) InfoAux" where
  "setError v a = a\<lparr>st_error := v\<rparr>"

definition setShouldUpdateDisplay :: "bool \<Rightarrow> ('g, 't) InfoAux \<Rightarrow> ('g, 't) InfoAux" where
  "setShouldUpdateDisplay v a = a\<lparr>shouldUpdateDisplay := v\<rparr>"

text \<open>\<^verbatim>\<open>const mkDisplayProps = () => ({ ...props, pos, goals, termGoal, error })\<close>, with the
  \<^verbatim>\<open>kind\<close> and \<^verbatim>\<open>pos\<close> of the render that calls it.\<close>

definition mkDisplayProps ::
  "InfoKind \<Rightarrow> DocumentPosition \<Rightarrow> ('g, 't) InfoAux \<Rightarrow> ('g, 't) DisplayProps" where
  "mkDisplayProps k p a =
     \<lparr>kind = k, pos = p, goals = st_goals a, termGoal = st_termGoal a, error = st_error a\<rparr>"

text \<open>
  The body of \<^verbatim>\<open>InfoAux\<close> at a render, as far as the cells go:
  \<^verbatim>\<open>if (shouldUpdateDisplay) { setDisplayProps(mkDisplayProps()); setShouldUpdateDisplay(false) }\<close>.
  A state set during a render makes React run the body again at once; the second run
  finds the flag false and changes nothing.
\<close>

definition InfoAux_render ::
  "InfoKind \<Rightarrow> DocumentPosition \<Rightarrow> ('g, 't) InfoAux \<Rightarrow> ('g, 't) InfoAux" where
  "InfoAux_render k p a =
     (if shouldUpdateDisplay a
      then a\<lparr>displayProps := mkDisplayProps k p a, shouldUpdateDisplay := False\<rparr>
      else a)"

text \<open>The error guard \<^verbatim>\<open>onError\<close> of the fetch cycle.\<close>

definition onError_steps :: "js_value \<Rightarrow> (('g, 't) InfoAux \<Rightarrow> ('g, 't) InfoAux) list" where
  "onError_steps err =
     (case errS err of
        None \<Rightarrow> [setError None]
      | Some m \<Rightarrow>
          if m = ''{}'' then [setError None]
          else [setError (Some (''Error fetching goals: '' @ m)), setStatus Error])"

definition onError :: "js_value \<Rightarrow> ('g, 't) InfoAux \<Rightarrow> ('g, 't) InfoAux" where
  "onError err a = fold (\<lambda>f. f) (onError_steps err) a"

section \<open>InfoDisplay: pausing, refresh and what is shown\<close>

text \<open>How a promise settles: with a value, or with a thrown value.\<close>

datatype 'a settled = Resolved 'a | Rejected js_value

text \<open>
  \<^verbatim>\<open>useAsync\<close> hands \<^verbatim>\<open>InfoDisplay\<close> the triple \<^verbatim>\<open>[widgetStatus, widgetResult, widgetError]\<close>.
  \<^verbatim>\<open>InfoDisplay\<close> never reads \<^verbatim>\<open>widgetError\<close>, so the state of the widget query is the
  status and the result: the widget list, or nothing when \<^verbatim>\<open>widgetResult\<close> is \<^verbatim>\<open>undefined\<close>.
\<close>

datatype asyncStatus = pending | resolved | rejected

record 'w async =
  widgetStatus :: asyncStatus
  widgetResult :: "'w list option"

text \<open>
  Modelled from the spec: \<^verbatim>\<open>useAsync\<close> is imported from \<^verbatim>\<open>./util\<close>, which is not among
  the sources, and the specification says only that the widget list is requested apart
  from the goals. \<^verbatim>\<open>InfoDisplay\<close> labels a widget panel "(pending)" or "(errored)" by the
  status, so widgets can be present in every status: status and result are cells of
  their own. A start of the query and a rejection change the status and keep the result;
  a resolution sets both.
\<close>

definition useAsync_started :: "'w async \<Rightarrow> 'w async" where
  "useAsync_started q = q\<lparr>widgetStatus := pending\<rparr>"

definition useAsync_settled :: "'w list option settled \<Rightarrow> 'w async \<Rightarrow> 'w async" where
  "useAsync_settled r q =
     (case r of
        Resolved x \<Rightarrow> q\<lparr>widgetStatus := resolved, widgetResult := x\<rparr>
      | Rejected e \<Rightarrow> q\<lparr>widgetStatus := rejected\<rparr>)"

text \<open>The cells of \<^verbatim>\<open>InfoDisplay\<close>: the pause flag and the ref \<^verbatim>\<open>propsRef\<close> of
  \<^verbatim>\<open>usePausableState\<close>, the flag \<^verbatim>\<open>shouldRefresh\<close>, and the state of the widget query.\<close>

record ('g, 't, 'm, 'w) InfoDisplay =
  isPaused :: bool
  propsRef :: "('g, 't, 'm) InfoDisplayProps"
  shouldRefresh :: bool
  widgetQuery :: "'w async"

text \<open>
  Modelled from the spec: \<^verbatim>\<open>usePausableState\<close> is imported from \<^verbatim>\<open>./util\<close>, which is not
  among the sources. The specification's PauseController keeps an applied value and a
  pending value: while paused the view keeps showing the last snapshot from before the
  pause, and while running the current props are applied. The hook returns the pause
  flag, its setter, the applied value (here \<open>propsRef\<close> after the call) and the ref
  holding it.
\<close>

definition usePausableState ::
  "('g, 't, 'm) InfoDisplayProps \<Rightarrow> ('g, 't, 'm, 'w) InfoDisplay \<Rightarrow> ('g, 't, 'm, 'w) InfoDisplay" where
  "usePausableState props0 d = (if isPaused d then d else d\<lparr>propsRef := props0\<rparr>)"

text \<open>
  One run of the body of \<^verbatim>\<open>InfoDisplay\<close>, as far as the cells go: the hook, then
  \<^verbatim>\<open>if (shouldRefresh) { propsRef.current = props0; setShouldRefresh(false) }\<close>.
\<close>

definition InfoDisplay_pass ::
  "('g, 't, 'm) InfoDisplayProps \<Rightarrow> ('g, 't, 'm, 'w) InfoDisplay \<Rightarrow> ('g, 't, 'm, 'w) InfoDisplay" where
  "InfoDisplay_pass props0 d =
     (let d1 = usePausableState props0 d
      in if shouldRefresh d1 then d1\<lparr>propsRef := props0, shouldRefresh := False\<rparr> else d1)"

text \<open>
  A render of \<^verbatim>\<open>InfoDisplay\<close>: when the first run has set \<^verbatim>\<open>shouldRefresh\<close> back, React
  runs the body again with the same props, and that run's \<^verbatim>\<open>props\<close> are what is drawn.
  After a render the drawn props are \<open>propsRef\<close>.
\<close>

definition InfoDisplay_render ::
  "('g, 't, 'm) InfoDisplayProps \<Rightarrow> ('g, 't, 'm, 'w) InfoDisplay \<Rightarrow> ('g, 't, 'm, 'w) InfoDisplay" where
  "InfoDisplay_render props0 d =
     (if shouldRefresh d
      then InfoDisplay_pass props0 (InfoDisplay_pass props0 d)
      else InfoDisplay_pass props0 d)"

text \<open>JavaScript truthiness of \<^verbatim>\<open>error\<close>, a string or \<^verbatim>\<open>undefined\<close>.\<close>

definition truthy :: "string option \<Rightarrow> bool" where
  "truthy e = (case e of None \<Rightarrow> False | Some m \<Rightarrow> m \<noteq> [])"

text \<open>The flags computed by \<^verbatim>\<open>InfoDisplay\<close> from the drawn props. Goals and term goal
  are objects, hence truthy when present.\<close>

definition hasError :: "('g, 't, 'm) InfoDisplayProps \<Rightarrow> bool" where
  "hasError props = (status props = Error \<and> truthy (error props))"

definition hasGoals :: "('g, 't, 'm) InfoDisplayProps \<Rightarrow> bool" where
  "hasGoals props = (status props \<noteq> Error \<and> goals props \<noteq> None)"

definition hasTermGoal :: "('g, 't, 'm) InfoDisplayProps \<Rightarrow> bool" where
  "hasTermGoal props = (status props \<noteq> Error \<and> termGoal props \<noteq> None)"

definition hasMessages :: "('g, 't, 'm) InfoDisplayProps \<Rightarrow> bool" where
  "hasMessages props = (status props \<noteq> Error \<and> messages props \<noteq> [])"

text \<open>\<^verbatim>\<open>const widgets = widgetResult && widgetResult.widgets\<close>\<close>

definition widgets :: "'w async \<Rightarrow> 'w list option" where
  "widgets q = widgetResult q"

definition hasWidget :: "'w async \<Rightarrow> bool" where
  "hasWidget q = (case widgets q of None \<Rightarrow> False | Some ws \<Rightarrow> ws \<noteq> [])"

text \<open>What the summary of a widget panel appends to the widget's name:
  \<^verbatim>\<open>{widgetStatus === 'pending' && ' (pending)'}\<close> and
  \<^verbatim>\<open>{widgetStatus === 'rejected' && ' (errored)'}\<close>.\<close>

definition widgetLabel :: "'w async \<Rightarrow> string" where
  "widgetLabel q =
     (if widgetStatus q = pending then '' (pending)''
      else if widgetStatus q = rejected then '' (errored)''
      else [])"

definition nothingToShow :: "('g, 't, 'm) InfoDisplayProps \<Rightarrow> 'w async \<Rightarrow> bool" where
  "nothingToShow props q =
     (\<not> truthy (error props) \<and> goals props = None \<and> termGoal props = None
      \<and> messages props = [] \<and> \<not> hasWidget q)"

text \<open>
  Modelled from the spec: \<^verbatim>\<open>discardMethodNotFound\<close> is imported from \<^verbatim>\<open>./util\<close>, which is
  not among the sources. By the specification a widget query that fails with "method
  not found" is treated as "no widgets", not as an error; every other failure stays a
  failure. Which thrown values are "method not found" is the parameter \<open>methodNotFound\<close>.
  The function gives how \<^verbatim>\<open>Widget_getWidgets(rs, pos).catch(discardMethodNotFound)\<close> settles
  when \<^verbatim>\<open>Widget_getWidgets(rs, pos)\<close> settles with \<open>r\<close>.
\<close>

definition discardMethodNotFound ::
  "(js_value \<Rightarrow> bool) \<Rightarrow> 'w list option settled \<Rightarrow> 'w list option settled" where
  "discardMethodNotFound methodNotFound r =
     (case r of
        Resolved ws \<Rightarrow> Resolved ws
      | Rejected e \<Rightarrow> if methodNotFound e then Resolved None else Rejected e)"

text \<open>
  \<^verbatim>\<open>copyGoalToComment\<close> is a closure or \<^verbatim>\<open>undefined\<close>; the closure is represented by
  the text it hands to \<^verbatim>\<open>ec.copyToComment\<close>. \<^verbatim>\<open>goalsToString\<close> is imported from
  \<^verbatim>\<open>./goals\<close> and is a parameter.
\<close>

definition copyGoalToComment :: "('g \<Rightarrow> string) \<Rightarrow> 'g option \<Rightarrow> string option" where
  "copyGoalToComment goalsToString g =
     (case g of None \<Rightarrow> None | Some gs \<Rightarrow> Some (goalsToString gs))"

text \<open>The link "copy state to comment" of \<^verbatim>\<open>InfoStatusBar\<close> is rendered when
  \<^verbatim>\<open>copyGoalToComment\<close> is truthy.\<close>

definition copyButtonOffered :: "string option \<Rightarrow> bool" where
  "copyButtonOffered c = (c \<noteq> None)"

datatype requestedAction = CopyToComment | TogglePaused

text \<open>The first handler of \<^verbatim>\<open>ec.events.requestedAction\<close>; the result lists the texts
  passed to \<^verbatim>\<open>ec.copyToComment\<close>.\<close>

definition onCopyToCommentRequested ::
  "('g \<Rightarrow> string) \<Rightarrow> ('g, 't, 'm) InfoDisplayProps \<Rightarrow> requestedAction \<Rightarrow> string list" where
  "onCopyToCommentRequested goalsToString props act =
     (if kind props \<noteq> Cursor then []
      else if act \<noteq> CopyToComment then []
      else case copyGoalToComment goalsToString (goals props) of
             None \<Rightarrow> []
           | Some text \<Rightarrow> [text])"

section \<open>The requests of one fetch cycle\<close>

datatype request =
    GetInteractiveGoals DocumentPosition
  | GetInteractiveTermGoal DocumentPosition
  | RequestPlainGoal DocumentPosition
  | RequestPlainTermGoal DocumentPosition

text \<open>
  The promise operations of the callback between \<^verbatim>\<open>setStatus('updating')\<close> and the end
  of the \<^verbatim>\<open>try\<close> block, in program order. A promise is named by the number of promises
  created before it. \<open>Issue\<close> sends a request and creates its promise, \<open>Then\<close>, \<open>Catch\<close>
  and \<open>All\<close> derive a promise from earlier ones, \<open>Await\<close> suspends the callback.
\<close>

datatype promise_op =
    Issue request
  | Then nat
  | Catch nat
  | All "nat list"
  | Await nat

definition fetch_ops :: "bool \<Rightarrow> DocumentPosition \<Rightarrow> promise_op list" where
  "fetch_ops hasWidgetsV1 p =
     (if hasWidgetsV1
      then [Issue (GetInteractiveGoals p), Issue (GetInteractiveTermGoal p), All [0, 1], Await 2]
      else [Issue (RequestPlainGoal p), Then 0,
            Issue (RequestPlainTermGoal p), Then 2, Catch 3,
            All [1, 4], Await 5])"

fun is_Await :: "promise_op \<Rightarrow> bool" where
  "is_Await (Await p) = True"
| "is_Await _ = False"

text \<open>What the callback does before it first suspends.\<close>

definition before_first_await :: "promise_op list \<Rightarrow> promise_op list" where
  "before_first_await ops = takeWhile (\<lambda>x. \<not> is_Await x) ops"

fun issued :: "promise_op list \<Rightarrow> request list" where
  "issued [] = []"
| "issued (Issue r # ops) = r # issued ops"
| "issued (_ # ops) = issued ops"

text \<open>
  The promises of the cycle: for each one the operation that created it and whether a
  reaction has been attached to it. \<^verbatim>\<open>then\<close>, \<^verbatim>\<open>catch\<close>, \<^verbatim>\<open>Promise.all\<close> and \<^verbatim>\<open>await\<close>
  attach a reaction to the promises they take.
\<close>

type_synonym promises = "(promise_op \<times> bool) list"

definition attach :: "nat \<Rightarrow> promises \<Rightarrow> promises" where
  "attach i tb = (if i < length tb then tb[i := (fst (tb ! i), True)] else tb)"

fun exec :: "promise_op \<Rightarrow> promises \<Rightarrow> promises" where
  "exec (Issue r) tb = tb @ [(Issue r, False)]"
| "exec (Then p) tb = attach p tb @ [(Then p, False)]"
| "exec (Catch p) tb = attach p tb @ [(Catch p, False)]"
| "exec (All ps) tb = fold attach ps tb @ [(All ps, False)]"
| "exec (Await p) tb = attach p tb"

text \<open>The promises when the callback suspends at its first \<^verbatim>\<open>await\<close>: no request can
  settle earlier, since a callback runs to its next suspension without interruption.\<close>

fun run_to_await :: "promise_op list \<Rightarrow> promises \<Rightarrow> promises" where
  "run_to_await [] tb = tb"
| "run_to_await (x # ops) tb = (if is_Await x then exec x tb else run_to_await ops (exec x tb))"

text \<open>
  Which promises reject when the requests in \<open>fails\<close> fail: a request's promise when the
  request fails, a \<^verbatim>\<open>then\<close> without rejection handler when its source rejects (its
  callback only converts the result), a \<^verbatim>\<open>catch(() => undefined)\<close> never,
  \<^verbatim>\<open>Promise.all\<close> when one of its members rejects.
\<close>

fun rejects :: "(request \<Rightarrow> bool) \<Rightarrow> promise_op list \<Rightarrow> bool list \<Rightarrow> bool list" where
  "rejects fails [] acc = acc"
| "rejects fails (x # xs) acc =
     rejects fails xs
       (acc @ [case x of
                 Issue r \<Rightarrow> fails r
               | Then p \<Rightarrow> p < length acc \<and> acc ! p
               | Catch p \<Rightarrow> False
               | All ps \<Rightarrow> list_ex (\<lambda>p. p < length acc \<and> acc ! p) ps
               | Await p \<Rightarrow> False])"

text \<open>The promises that reject with no reaction attached: the unhandled rejections.\<close>

definition unhandled :: "(request \<Rightarrow> bool) \<Rightarrow> promises \<Rightarrow> nat list" where
  "unhandled fails tb =
     filter (\<lambda>i. rejects fails (map fst tb) [] ! i \<and> \<not> snd (tb ! i)) [0..<length tb]"

section \<open>The component tree as a transition system\<close>

text \<open>
  A callback passed to \<^verbatim>\<open>useDelayedThrottled\<close> is a closure; it is represented by what
  it captures: the position \<^verbatim>\<open>pos\<close>, the protocol check \<^verbatim>\<open>sv?.hasWidgetsV1()\<close>, and the
  delay of the \<^verbatim>\<open>triggerUpdate\<close> of its own render, which it calls to retry.
\<close>

record callback =
  cb_pos :: DocumentPosition
  cb_widgetsV1 :: bool
  cb_ms :: nat

text \<open>
  The state: the props and contexts \<^verbatim>\<open>InfoAux\<close> reads (\<open>env_\<close>), the time, the refs of
  the scheduler, the cells of both components, the cycles whose requests have not
  settled (each with its callback and with who awaits it), and the log of requests sent.
\<close>

record ('g, 't, 'm, 'w) sys =
  env_kind :: InfoKind
  env_pos :: DocumentPosition
  env_processing :: bool
  env_widgetsV1 :: bool
  env_messages :: "'m list"
  clock :: nat
  thr :: "callback throttle"
  aux :: "('g, 't) InfoAux"
  disp :: "('g, 't, 'm, 'w) InfoDisplay"
  inflight :: "(callback \<times> awaiter) list"
  requests :: "request list"

text \<open>\<^verbatim>\<open><InfoDisplay {...displayProps} status={status} messages={messages} ... />\<close>\<close>

definition props0_of :: "('g, 't, 'm, 'w) sys \<Rightarrow> ('g, 't, 'm) InfoDisplayProps" where
  "props0_of s =
     (let dp = displayProps (aux s)
      in \<lparr>kind = kind dp, pos = pos dp, goals = goals dp, termGoal = termGoal dp,
          error = error dp, status = st_status (aux s), messages = env_messages s\<rparr>)"

definition renderDisplay :: "('g, 't, 'm, 'w) sys \<Rightarrow> ('g, 't, 'm, 'w) sys" where
  "renderDisplay s = s\<lparr>disp := InfoDisplay_render (props0_of s) (disp s)\<rparr>"

text \<open>A render of \<^verbatim>\<open>InfoAux\<close> and, below it, of \<^verbatim>\<open>InfoDisplay\<close>.\<close>

definition render :: "('g, 't, 'm, 'w) sys \<Rightarrow> ('g, 't, 'm, 'w) sys" where
  "render s =
     renderDisplay
       (s\<lparr>aux := InfoAux_render (env_kind s) (env_pos s) (aux s),
          thr := useDelayedThrottled
                   \<lparr>cb_pos = env_pos s, cb_widgetsV1 = env_widgetsV1 s,
                    cb_ms = triggerUpdate_ms (env_processing s)\<rparr> (thr s)\<rparr>)"

text \<open>
  A state setter of \<^verbatim>\<open>InfoAux\<close> called from an asynchronous continuation, followed by the
  render it causes. Rendering after every single setter is the finest interleaving
  React allows; \<open>renders\<close> lists the states after each setter of a sequence.
\<close>

definition setState ::
  "(('g, 't) InfoAux \<Rightarrow> ('g, 't) InfoAux) \<Rightarrow> ('g, 't, 'm, 'w) sys \<Rightarrow> ('g, 't, 'm, 'w) sys" where
  "setState f s = render (s\<lparr>aux := f (aux s)\<rparr>)"

fun renders ::
  "(('g, 't) InfoAux \<Rightarrow> ('g, 't) InfoAux) list \<Rightarrow> ('g, 't, 'm, 'w) sys \<Rightarrow> ('g, 't, 'm, 'w) sys list" where
  "renders [] s = []"
| "renders (f # fs) s = setState f s # renders fs (setState f s)"

definition setStates ::
  "(('g, 't) InfoAux \<Rightarrow> ('g, 't) InfoAux) list \<Rightarrow> ('g, 't, 'm, 'w) sys \<Rightarrow> ('g, 't, 'm, 'w) sys" where
  "setStates fs s = last (s # renders fs s)"

text \<open>The setters of the \<^verbatim>\<open>try\<close> block after \<^verbatim>\<open>await allReq\<close>, and of the \<^verbatim>\<open>catch\<close>
  block when the failure is reported; both end with \<^verbatim>\<open>setShouldUpdateDisplay(true)\<close>.\<close>

definition success_steps :: "'g option \<Rightarrow> 't option \<Rightarrow> (('g, 't) InfoAux \<Rightarrow> ('g, 't) InfoAux) list" where
  "success_steps g t = [setGoals g, setTermGoal t, setStatus Ready, setShouldUpdateDisplay True]"

definition failure_steps :: "js_value \<Rightarrow> (('g, 't) InfoAux \<Rightarrow> ('g, 't) InfoAux) list" where
  "failure_steps err = onError_steps err @ [setShouldUpdateDisplay True]"

text \<open>A call of the throttled \<^verbatim>\<open>triggerUpdate\<close> from a closure with delay \<open>d\<close>.\<close>

definition callTrigger ::
  "awaiter \<Rightarrow> nat \<Rightarrow> ('g, 't, 'm, 'w) sys \<Rightarrow> ('g, 't, 'm, 'w) sys \<times> trigger_result" where
  "callTrigger w d s = (let (th, r) = trigger (clock s) w d (thr s) in (s\<lparr>thr := th\<rparr>, r))"

text \<open>What runs when the promise of a trigger call resolves: nothing for
  \<^verbatim>\<open>void triggerUpdate()\<close>; for \<^verbatim>\<open>triggerDisplayUpdate\<close> the rest of its body,
  \<^verbatim>\<open>setShouldRefresh(true)\<close>, and the render of \<^verbatim>\<open>InfoDisplay\<close> that follows.\<close>

definition resolve :: "awaiter \<Rightarrow> ('g, 't, 'm, 'w) sys \<Rightarrow> ('g, 't, 'm, 'w) sys" where
  "resolve w s =
     (case w of
        Detached \<Rightarrow> s
      | DisplayUpdate \<Rightarrow> renderDisplay (s\<lparr>disp := (disp s)\<lparr>shouldRefresh := True\<rparr>\<rparr>))"

text \<open>\<^verbatim>\<open>triggerDisplayUpdate\<close>: \<^verbatim>\<open>await props0.triggerUpdate(); setShouldRefresh(true)\<close>.\<close>

definition triggerDisplayUpdate :: "('g, 't, 'm, 'w) sys \<Rightarrow> ('g, 't, 'm, 'w) sys" where
  "triggerDisplayUpdate s =
     (let (s1, r) = callTrigger DisplayUpdate (triggerUpdate_ms (env_processing s)) s
      in case r of ResolvedImmediately \<Rightarrow> resolve DisplayUpdate s1 | AwaitsCycle \<Rightarrow> s1)"

text \<open>The effect \<^verbatim>\<open>React.useEffect(() => void triggerUpdate(), [...])\<close>, run after a
  render in which the position or the processing state has changed.\<close>

definition effect :: "('g, 't, 'm, 'w) sys \<Rightarrow> ('g, 't, 'm, 'w) sys" where
  "effect s = fst (callTrigger Detached (triggerUpdate_ms (env_processing s)) s)"

text \<open>The callback up to \<^verbatim>\<open>await allReq\<close>: \<^verbatim>\<open>setStatus('updating')\<close>, then the requests
  are sent and the cycle is in flight.\<close>

definition beginCycle :: "callback \<Rightarrow> awaiter \<Rightarrow> ('g, 't, 'm, 'w) sys \<Rightarrow> ('g, 't, 'm, 'w) sys" where
  "beginCycle cb w s =
     (let s1 = setState (setStatus Updating) s
      in s1\<lparr>inflight := inflight s1 @ [(cb, w)],
            requests := requests s1
               @ issued (before_first_await (fetch_ops (cb_widgetsV1 cb) (cb_pos cb)))\<rparr>)"

text \<open>
  The callback after \<^verbatim>\<open>await allReq\<close>. \<^verbatim>\<open>allReq\<close> either yields the pair of results or
  throws. With the code \<open>-32801\<close> the callback calls \<^verbatim>\<open>triggerUpdate\<close> and returns; in
  every case its promise then resolves and whoever awaits it goes on.
\<close>

definition settleCycle ::
  "callback \<Rightarrow> awaiter \<Rightarrow> js_value + 'g option \<times> 't option \<Rightarrow> ('g, 't, 'm, 'w) sys
     \<Rightarrow> ('g, 't, 'm, 'w) sys" where
  "settleCycle cb w r s =
     (case r of
        Inr (g, t) \<Rightarrow> resolve w (setStates (success_steps g t) s)
      | Inl err \<Rightarrow>
          if err_code err = Some (- 32801)
          then resolve w (fst (callTrigger Detached (cb_ms cb) s))
          else resolve w (setStates (failure_steps err) s))"

text \<open>
  The events are the points at which the run-to-completion code of the two components is
  entered from outside:
  \<^item> \<open>PositionChanged\<close>, \<open>ProcessingChanged\<close>, \<open>MessagesChanged\<close>: the position, the result of
    \<^verbatim>\<open>useIsProcessingAt\<close> or the result of \<^verbatim>\<open>useMessagesFor\<close> is new, \<^verbatim>\<open>InfoAux\<close> renders, and
    the effect runs when one of its dependencies has changed;
  \<^item> \<open>Elapse\<close>: time passes; \<open>TimerFired\<close>: the callback given to \<^verbatim>\<open>setTimeout\<close> runs, which
    needs the first armed timer to be due;
  \<^item> \<open>RequestsSettled i r\<close>: \<^verbatim>\<open>allReq\<close> of the \<open>i\<close>-th cycle in flight settles with \<open>r\<close>, an
    error value or the pair of results, and the callback runs to its end;
  \<^item> \<open>WidgetQueryStarted\<close>, \<open>WidgetQuerySettled r\<close>: \<^verbatim>\<open>useAsync\<close> restarts the widget query,
    or the promise it was given, \<^verbatim>\<open>Widget_getWidgets(rs, pos).catch(discardMethodNotFound)\<close>,
    settles with \<open>r\<close>;
  \<^item> \<open>ClickUpdate\<close>: the update link, "Try again" or "Refresh" is clicked, all of which call
    \<^verbatim>\<open>triggerDisplayUpdate\<close>;
  \<^item> \<open>SetPaused\<close>: the pause link or "resume updating" is clicked;
  \<^item> \<open>Requested\<close>: the editor fires \<^verbatim>\<open>ec.events.requestedAction\<close>; only \<^verbatim>\<open>togglePaused\<close> on
    the cursor view changes the state.
\<close>

datatype ('g, 't, 'm, 'w) event =
    PositionChanged DocumentPosition
  | ProcessingChanged bool
  | MessagesChanged "'m list"
  | Elapse nat
  | TimerFired
  | RequestsSettled nat "js_value + 'g option \<times> 't option"
  | WidgetQueryStarted
  | WidgetQuerySettled "'w list option settled"
  | ClickUpdate
  | SetPaused bool
  | Requested requestedAction

fun step :: "('g, 't, 'm, 'w) event \<Rightarrow> ('g, 't, 'm, 'w) sys \<Rightarrow> ('g, 't, 'm, 'w) sys" where
  "step (PositionChanged p) s =
     (let s1 = render (s\<lparr>env_pos := p\<rparr>) in if p \<noteq> env_pos s then effect s1 else s1)"
| "step (ProcessingChanged b) s =
     (let s1 = render (s\<lparr>env_processing := b\<rparr>) in if b \<noteq> env_processing s then effect s1 else s1)"
| "step (MessagesChanged msgs) s = render (s\<lparr>env_messages := msgs\<rparr>)"
| "step (Elapse d) s = s\<lparr>clock := clock s + d\<rparr>"
| "step TimerFired s =
     (case timers (thr s) of
        [] \<Rightarrow> s
      | (d, w) # ts \<Rightarrow>
          if clock s < d then s
          else (let (th, run) = timeout (thr s); s1 = s\<lparr>thr := th\<rparr>
                in case run of None \<Rightarrow> s1 | Some (cb, w') \<Rightarrow> beginCycle cb w' s1))"
| "step (RequestsSettled i r) s =
     (if i < length (inflight s)
      then (let (cb, w) = inflight s ! i
            in settleCycle cb w r (s\<lparr>inflight := take i (inflight s) @ drop (Suc i) (inflight s)\<rparr>))
      else s)"
| "step WidgetQueryStarted s =
     renderDisplay (s\<lparr>disp := (disp s)\<lparr>widgetQuery := useAsync_started (widgetQuery (disp s))\<rparr>\<rparr>)"
| "step (WidgetQuerySettled r) s =
     renderDisplay (s\<lparr>disp := (disp s)\<lparr>widgetQuery := useAsync_settled r (widgetQuery (disp s))\<rparr>\<rparr>)"
| "step ClickUpdate s = triggerDisplayUpdate s"
| "step (SetPaused b) s = renderDisplay (s\<lparr>disp := (disp s)\<lparr>isPaused := b\<rparr>\<rparr>)"
| "step (Requested act) s =
     (if kind (propsRef (disp s)) = Cursor \<and> act = TogglePaused
      then renderDisplay (s\<lparr>disp := (disp s)\<lparr>isPaused := \<not> isPaused (disp s)\<rparr>\<rparr>)
      else s)"

definition run :: "('g, 't, 'm, 'w) event list \<Rightarrow> ('g, 't, 'm, 'w) sys \<Rightarrow> ('g, 't, 'm, 'w) sys" where
  "run es s = fold step es s"

text \<open>The first render of the component tree and the effect after it.\<close>

definition mount ::
  "InfoKind \<Rightarrow> DocumentPosition \<Rightarrow> bool \<Rightarrow> bool \<Rightarrow> 'm list \<Rightarrow> ('g, 't, 'm, 'w) sys" where
  "mount k p processing v1 msgs =
     effect (render
       \<lparr>env_kind = k, env_pos = p, env_processing = processing, env_widgetsV1 = v1,
        env_messages = msgs, clock = 0,
        thr = \<lparr>waiting = False, callbackRef = None, timers = []\<rparr>,
        aux = \<lparr>st_status = Loading, st_goals = None, st_termGoal = None, st_error = None,
               displayProps = \<lparr>kind = k, pos = p, goals = None, termGoal = None, error = None\<rparr>,
               shouldUpdateDisplay = False\<rparr>,
        disp = \<lparr>isPaused = False,
                propsRef = \<lparr>kind = k, pos = p, goals = None, termGoal = None, error = None,
                            status = Loading, messages = msgs\<rparr>,
                shouldRefresh = False,
                widgetQuery = \<lparr>widgetStatus = pending, widgetResult = None\<rparr>\<rparr>,
        inflight = [], requests = []\<rparr>)"

section \<open>Invariants of the transition system\<close>

text \<open>The scheduler has a timer armed exactly when \<^verbatim>\<open>waiting\<close> is set, and never more
  than one.\<close>

definition sched_inv :: "'cb throttle \<Rightarrow> bool" where
  "sched_inv th = (if waiting th then length (timers th) = 1 else timers th = [])"

text \<open>
  Between two events both one-shot flags are down, the drawn props are the current props
  unless the view is paused, and the scheduler is consistent.
\<close>

definition inv_sys :: "('g, 't, 'm, 'w) sys \<Rightarrow> bool" where
  "inv_sys s = (\<not> shouldUpdateDisplay (aux s) \<and> \<not> shouldRefresh (disp s)
           \<and> (isPaused (disp s) \<or> propsRef (disp s) = props0_of s)
           \<and> sched_inv (thr s))"

section \<open>Events that unfreeze a paused view\<close>

text \<open>
  \<open>completes_refresh\<close> holds of the events after which \<^verbatim>\<open>triggerDisplayUpdate\<close> runs
  \<^verbatim>\<open>setShouldRefresh(true)\<close>: a click on the update link while a timer is armed (the
  awaited call resolves at once), and the settling of a cycle that
  \<^verbatim>\<open>triggerDisplayUpdate\<close> awaits. \<open>changes_pause\<close> holds of the events that set the pause
  flag.
\<close>

fun completes_refresh :: "('g, 't, 'm, 'w) event \<Rightarrow> ('g, 't, 'm, 'w) sys \<Rightarrow> bool" where
  "completes_refresh ClickUpdate s = waiting (thr s)"
| "completes_refresh (RequestsSettled i r) s =
     (i < length (inflight s) \<and> snd (inflight s ! i) = DisplayUpdate)"
| "completes_refresh _ s = False"

fun changes_pause :: "('g, 't, 'm, 'w) event \<Rightarrow> bool" where
  "changes_pause (SetPaused b) = True"
| "changes_pause (Requested act) = (act = TogglePaused)"
| "changes_pause _ = False"

section \<open>Events of the widget query\<close>

text \<open>
  The widget query of \<^verbatim>\<open>InfoDisplay\<close> runs beside the fetch cycles of \<^verbatim>\<open>InfoAux\<close>.
  \<open>widget_event\<close> holds of the two events that belong to it. \<open>without_widgets\<close> forgets
  the state of the widget query, and \<open>same_but_widgets\<close> relates two states that differ
  at most there.
\<close>

fun widget_event :: "('g, 't, 'm, 'w) event \<Rightarrow> bool" where
  "widget_event WidgetQueryStarted = True"
| "widget_event (WidgetQuerySettled r) = True"
| "widget_event _ = False"

definition without_widgets :: "('g, 't, 'm, 'w) sys \<Rightarrow> ('g, 't, 'm, 'w) sys" where
  "without_widgets s =
     s\<lparr>disp := (disp s)\<lparr>widgetQuery := \<lparr>widgetStatus = pending, widgetResult = None\<rparr>\<rparr>\<rparr>"

definition same_but_widgets :: "('g, 't, 'm, 'w) sys \<Rightarrow> ('g, 't, 'm, 'w) sys \<Rightarrow> bool" where
  "same_but_widgets s s' = (without_widgets s = without_widgets s')"

section \<open>Example inputs\<close>

text \<open>
  Concrete inputs for the theorems below: two positions, the mounted cursor view on the
  modern protocol, the same view after its first timer has fired, after the position has
  moved on during that cycle, paused after the first cycle has succeeded, and with the
  first cycle still in flight when the server has been reported busy and a second cycle
  has started; event sequences; thrown values; an idle scheduler with two calls 30
  time-units apart.
\<close>

definition posA :: DocumentPosition where
  "posA = \<lparr>uri = ''a.lean'', line = 3, character = 0\<rparr>"

definition posB :: DocumentPosition where
  "posB = \<lparr>uri = ''a.lean'', line = 7, character = 2\<rparr>"

definition ex_mounted :: "(string, string, string, string) sys" where
  "ex_mounted = mount Cursor posA False True []"

definition ex_inflight :: "(string, string, string, string) sys" where
  "ex_inflight = run [Elapse 50, TimerFired] ex_mounted"

definition ex_cb :: callback where
  "ex_cb = \<lparr>cb_pos = posA, cb_widgetsV1 = True, cb_ms = 50\<rparr>"

definition ex_idle :: "string throttle" where
  "ex_idle = \<lparr>waiting = False, callbackRef = None, timers = []\<rparr>"

definition ex_calls :: "string call list" where
  "ex_calls =
     [\<lparr>call_elapsed = 0, call_action = ''fetch at t=0'', call_ms = 50, call_awaiter = Detached\<rparr>,
      \<lparr>call_elapsed = 30, call_action = ''fetch at t=30'', call_ms = 50, call_awaiter = Detached\<rparr>]"

definition ex_second_fails :: "(string, string, string, string) event list" where
  "ex_second_fails =
     [RequestsSettled 0 (Inr (Some ''G1'', Some ''T1'')), PositionChanged posB, Elapse 50,
      TimerFired, RequestsSettled 0 (Inl (JsString ''boom''))]"

definition ex_stale :: js_value where
  "ex_stale = JsOther (Some (- 32801)) (Some ''{\"code\":-32801,\"message\":\"content modified\"}'')"

definition ex_moved :: "(string, string, string, string) sys" where
  "ex_moved = run [PositionChanged posB] ex_inflight"

definition ex_paused :: "(string, string, string, string) sys" where
  "ex_paused =
     run [RequestsSettled 0 (Inr (Some ''G1'', Some ''T1'')), SetPaused True] ex_inflight"


definition ex_refresh_while_pending :: "(string, string, string, string) event list" where
  "ex_refresh_while_pending =
     [PositionChanged posB, ClickUpdate, Elapse 50, TimerFired,
      RequestsSettled 0 (Inr (Some ''G2'', Some ''T2''))]"

definition ex_methodNotFound :: "js_value \<Rightarrow> bool" where
  "ex_methodNotFound e = (err_code e = Some (- 32601))"

definition ex_noWidgets :: js_value where
  "ex_noWidgets = JsOther (Some (- 32601)) (Some ''{\"code\":-32601}'')"


section \<open>Basic facts about rendering\<close>

lemmas setter_defs = setStatus_def setGoals_def setTermGoal_def setError_def setShouldUpdateDisplay_def

lemma InfoDisplay_pass_simps [simp]:
  "isPaused (InfoDisplay_pass p0 d) = isPaused d"
  "shouldRefresh (InfoDisplay_pass p0 d) = False"
  "widgetQuery (InfoDisplay_pass p0 d) = widgetQuery d"
  "propsRef (InfoDisplay_pass p0 d) = (if isPaused d \<and> \<not> shouldRefresh d then propsRef d else p0)"
  by (simp_all add: InfoDisplay_pass_def usePausableState_def Let_def)

lemma InfoDisplay_render_simps [simp]:
  "isPaused (InfoDisplay_render p0 d) = isPaused d"
  "shouldRefresh (InfoDisplay_render p0 d) = False"
  "widgetQuery (InfoDisplay_render p0 d) = widgetQuery d"
  "propsRef (InfoDisplay_render p0 d) = (if isPaused d \<and> \<not> shouldRefresh d then propsRef d else p0)"
  by (simp_all add: InfoDisplay_render_def)

lemma renderDisplay_simps [simp]:
  "aux (renderDisplay s) = aux s"
  "thr (renderDisplay s) = thr s"
  "env_kind (renderDisplay s) = env_kind s"
  "env_pos (renderDisplay s) = env_pos s"
  "env_processing (renderDisplay s) = env_processing s"
  "env_widgetsV1 (renderDisplay s) = env_widgetsV1 s"
  "env_messages (renderDisplay s) = env_messages s"
  "clock (renderDisplay s) = clock s"
  "inflight (renderDisplay s) = inflight s"
  "requests (renderDisplay s) = requests s"
  "disp (renderDisplay s) = InfoDisplay_render (props0_of s) (disp s)"
  by (simp_all add: renderDisplay_def)

lemma props0_of_cong:
  "aux s = aux s' \<Longrightarrow> env_messages s = env_messages s' \<Longrightarrow> props0_of s = props0_of s'"
  by (simp add: props0_of_def)

lemma render_simps [simp]:
  "aux (render s) = InfoAux_render (env_kind s) (env_pos s) (aux s)"
  "thr (render s) = useDelayedThrottled
       \<lparr>cb_pos = env_pos s, cb_widgetsV1 = env_widgetsV1 s,
        cb_ms = triggerUpdate_ms (env_processing s)\<rparr> (thr s)"
  "env_kind (render s) = env_kind s"
  "env_pos (render s) = env_pos s"
  "env_processing (render s) = env_processing s"
  "env_widgetsV1 (render s) = env_widgetsV1 s"
  "env_messages (render s) = env_messages s"
  "clock (render s) = clock s"
  "inflight (render s) = inflight s"
  "requests (render s) = requests s"
  by (simp_all add: render_def)

lemma props0_of_render:
  "props0_of (render s) = props0_of (s\<lparr>aux := InfoAux_render (env_kind s) (env_pos s) (aux s)\<rparr>)"
  by (rule props0_of_cong) simp_all

lemma disp_render [simp]:
  "disp (render s) = InfoDisplay_render (props0_of (render s)) (disp s)"
  unfolding props0_of_render by (simp add: render_def props0_of_def)

lemma setState_simps [simp]:
  "aux (setState f s) = InfoAux_render (env_kind s) (env_pos s) (f (aux s))"
  "thr (setState f s) = useDelayedThrottled
       \<lparr>cb_pos = env_pos s, cb_widgetsV1 = env_widgetsV1 s,
        cb_ms = triggerUpdate_ms (env_processing s)\<rparr> (thr s)"
  "env_kind (setState f s) = env_kind s"
  "env_pos (setState f s) = env_pos s"
  "env_processing (setState f s) = env_processing s"
  "env_widgetsV1 (setState f s) = env_widgetsV1 s"
  "env_messages (setState f s) = env_messages s"
  "clock (setState f s) = clock s"
  "inflight (setState f s) = inflight s"
  "requests (setState f s) = requests s"
  "disp (setState f s) = InfoDisplay_render (props0_of (setState f s)) (disp s)"
  by (simp_all add: setState_def)

lemma setStates_Nil [simp]: "setStates [] s = s"
  by (simp add: setStates_def)

lemma setStates_Cons [simp]: "setStates (f # fs) s = setStates fs (setState f s)"
  by (simp add: setStates_def)

lemma setStates_env [simp]:
  "env_kind (setStates fs s) = env_kind s"
  "env_pos (setStates fs s) = env_pos s"
  "env_processing (setStates fs s) = env_processing s"
  "env_widgetsV1 (setStates fs s) = env_widgetsV1 s"
  "env_messages (setStates fs s) = env_messages s"
  "clock (setStates fs s) = clock s"
  "inflight (setStates fs s) = inflight s"
  "requests (setStates fs s) = requests s"
  "isPaused (disp (setStates fs s)) = isPaused (disp s)"
  "widgetQuery (disp (setStates fs s)) = widgetQuery (disp s)"
  by (induction fs arbitrary: s; simp)+

lemma resolve_simps [simp]:
  "aux (resolve w s) = aux s"
  "thr (resolve w s) = thr s"
  "env_kind (resolve w s) = env_kind s"
  "env_pos (resolve w s) = env_pos s"
  "env_messages (resolve w s) = env_messages s"
  "clock (resolve w s) = clock s"
  "inflight (resolve w s) = inflight s"
  "requests (resolve w s) = requests s"
  "isPaused (disp (resolve w s)) = isPaused (disp s)"
  "shouldRefresh (disp (resolve w s)) = (w = Detached \<and> shouldRefresh (disp s))"
  "propsRef (disp (resolve w s)) = (if w = Detached then propsRef (disp s) else props0_of s)"
  "widgetQuery (disp (resolve w s)) = widgetQuery (disp s)"
  by (cases w; simp add: resolve_def props0_of_def)+

lemma props0_of_resolve [simp]: "props0_of (resolve w s) = props0_of s"
  by (rule props0_of_cong) simp_all

lemma propsRef_setState_running:
  "\<not> isPaused (disp s) \<Longrightarrow> propsRef (disp (setState f s)) = props0_of (setState f s)"
  by simp

lemma propsRef_setStates_running:
  "\<not> isPaused (disp s) \<Longrightarrow> fs \<noteq> [] \<Longrightarrow>
   propsRef (disp (setStates fs s)) = props0_of (setStates fs s)"
proof (induction fs arbitrary: s)
  case Nil
  then show ?case by simp
next
  case (Cons f fs)
  show ?case
  proof (cases "fs = []")
    case True
    then show ?thesis using Cons.prems by simp
  next
    case False
    have "\<not> isPaused (disp (setState f s))" using Cons.prems by simp
    from Cons.IH [OF this False] show ?thesis by simp
  qed
qed

lemma propsRef_setStates_paused:
  "isPaused (disp s) \<Longrightarrow> \<not> shouldRefresh (disp s) \<Longrightarrow>
   propsRef (disp (setStates fs s)) = propsRef (disp s) \<and> \<not> shouldRefresh (disp (setStates fs s))"
  by (induction fs arbitrary: s) simp_all

lemma InfoAux_render_idle [simp]:
  "\<not> shouldUpdateDisplay a \<Longrightarrow> InfoAux_render k p a = a"
  by (simp add: InfoAux_render_def)

lemma shouldUpdateDisplay_render [simp]:
  "\<not> shouldUpdateDisplay (InfoAux_render k p a)"
  by (simp add: InfoAux_render_def)

lemma callTrigger_simps [simp]:
  "aux (fst (callTrigger w d s)) = aux s"
  "disp (fst (callTrigger w d s)) = disp s"
  "env_kind (fst (callTrigger w d s)) = env_kind s"
  "env_pos (fst (callTrigger w d s)) = env_pos s"
  "env_processing (fst (callTrigger w d s)) = env_processing s"
  "env_widgetsV1 (fst (callTrigger w d s)) = env_widgetsV1 s"
  "env_messages (fst (callTrigger w d s)) = env_messages s"
  "clock (fst (callTrigger w d s)) = clock s"
  "inflight (fst (callTrigger w d s)) = inflight s"
  "requests (fst (callTrigger w d s)) = requests s"
  "thr (fst (callTrigger w d s)) = fst (trigger (clock s) w d (thr s))"
  "snd (callTrigger w d s) = snd (trigger (clock s) w d (thr s))"
  by (simp_all add: callTrigger_def split: prod.splits)

lemma props0_of_callTrigger [simp]: "props0_of (fst (callTrigger w d s)) = props0_of s"
  by (rule props0_of_cong) simp_all

lemma effect_simps [simp]:
  "aux (effect s) = aux s"
  "disp (effect s) = disp s"
  "env_kind (effect s) = env_kind s"
  "env_pos (effect s) = env_pos s"
  "env_processing (effect s) = env_processing s"
  "env_widgetsV1 (effect s) = env_widgetsV1 s"
  "env_messages (effect s) = env_messages s"
  "clock (effect s) = clock s"
  "inflight (effect s) = inflight s"
  "requests (effect s) = requests s"
  "thr (effect s) = fst (trigger (clock s) Detached (triggerUpdate_ms (env_processing s)) (thr s))"
  by (simp_all add: effect_def)

lemma props0_of_effect [simp]: "props0_of (effect s) = props0_of s"
  by (rule props0_of_cong) simp_all

lemma sched_inv_trigger: "sched_inv th \<Longrightarrow> sched_inv (fst (trigger now w d th))"
  by (simp add: sched_inv_def trigger_def)

lemma sched_inv_hook [simp]: "sched_inv (useDelayedThrottled cb th) = sched_inv th"
  by (simp add: sched_inv_def useDelayedThrottled_def)

lemma sched_inv_timeout: "sched_inv th \<Longrightarrow> sched_inv (fst (timeout th))"
  by (auto simp: sched_inv_def timeout_def split: list.splits if_splits)

lemma props0_of_renderDisplay [simp]: "props0_of (renderDisplay s) = props0_of s"
  by (rule props0_of_cong) simp_all

lemma inv_sys_render: 
  "\<not> shouldRefresh (disp s) \<Longrightarrow> sched_inv (thr s) \<Longrightarrow> inv_sys (render s)"
  by (simp add: inv_sys_def)

lemma inv_sys_renderDisplay:
  "\<not> shouldUpdateDisplay (aux s) \<Longrightarrow> sched_inv (thr s) \<Longrightarrow> inv_sys (renderDisplay s)"
  by (simp add: inv_sys_def)

lemma inv_sys_setState: "inv_sys s \<Longrightarrow> inv_sys (setState f s)"
  unfolding setState_def by (rule inv_sys_render) (simp_all add: inv_sys_def)

lemma inv_sys_setStates: "inv_sys s \<Longrightarrow> inv_sys (setStates fs s)"
  by (induction fs arbitrary: s) (simp_all add: inv_sys_setState)

lemma inv_sys_callTrigger: "inv_sys s \<Longrightarrow> inv_sys (fst (callTrigger w d s))"
  by (simp add: inv_sys_def sched_inv_trigger)

lemma inv_sys_resolve: "inv_sys s \<Longrightarrow> inv_sys (resolve w s)"
  by (cases w) (simp_all add: inv_sys_def)

lemma inv_sys_step: "inv_sys s \<Longrightarrow> inv_sys (step e s)"
proof (cases e)
  case (PositionChanged p)
  assume "inv_sys s"
  then have "inv_sys (render (s\<lparr>env_pos := p\<rparr>))" and "inv_sys (render s)"
    by (simp_all add: inv_sys_render inv_sys_def)
  then show ?thesis
    using PositionChanged by (auto simp: Let_def effect_def inv_sys_callTrigger)
next
  case (ProcessingChanged b)
  assume "inv_sys s"
  then have "inv_sys (render (s\<lparr>env_processing := b\<rparr>))" and "inv_sys (render s)"
    by (simp_all add: inv_sys_render inv_sys_def)
  then show ?thesis
    using ProcessingChanged by (auto simp: Let_def effect_def inv_sys_callTrigger)
next
  case (MessagesChanged msgs)
  assume "inv_sys s"
  then show ?thesis
    using MessagesChanged by (simp add: inv_sys_render inv_sys_def)
next
  case (Elapse d)
  assume "inv_sys s"
  then show ?thesis
    using Elapse by (simp add: inv_sys_def props0_of_def)
next
  case TimerFired
  assume w: "inv_sys s"
  have t: "inv_sys (s\<lparr>thr := fst (timeout (thr s))\<rparr>)"
    using w by (simp add: inv_sys_def sched_inv_timeout props0_of_def)
  have b: "inv_sys (beginCycle cb w' u)" if "inv_sys u" for cb w' and u :: "('a, 'b, 'c, 'd) sys"
    using inv_sys_setState [OF that, of "setStatus Updating"]
    by (simp add: beginCycle_def Let_def inv_sys_def props0_of_def)
  show ?thesis
    using TimerFired w t b
    by (auto simp: Let_def split: list.splits prod.splits option.splits)
next
  case (RequestsSettled i r)
  assume w: "inv_sys s"
  have u: "inv_sys (s\<lparr>inflight := xs\<rparr>)" for xs
    using w by (simp add: inv_sys_def props0_of_def)
  have "inv_sys (settleCycle cb w' r u)" if "inv_sys u" for cb w' and u :: "('a, 'b, 'c, 'd) sys"
    using that
    by (auto simp: settleCycle_def inv_sys_resolve inv_sys_setStates inv_sys_callTrigger split: sum.splits)
  then show ?thesis
    using RequestsSettled w u by (simp add: Let_def split: prod.splits)
next
  case WidgetQueryStarted
  assume "inv_sys s"
  then show ?thesis
    using WidgetQueryStarted by (simp add: inv_sys_def props0_of_def)
next
  case (WidgetQuerySettled q)
  assume "inv_sys s"
  then show ?thesis
    using WidgetQuerySettled by (simp add: inv_sys_def props0_of_def)
next
  case ClickUpdate
  assume "inv_sys s"
  then show ?thesis
    using ClickUpdate
    by (auto simp: triggerDisplayUpdate_def inv_sys_resolve inv_sys_callTrigger
        split: prod.splits trigger_result.splits
        dest: inv_sys_callTrigger [of s DisplayUpdate "triggerUpdate_ms (env_processing s)"])
next
  case (SetPaused b)
  assume "inv_sys s"
  then show ?thesis
    using SetPaused by (simp add: inv_sys_def props0_of_def)
next
  case (Requested act)
  assume "inv_sys s"
  then show ?thesis
    using Requested by (simp add: inv_sys_def props0_of_def)
qed

lemma inv_sys_mount: "inv_sys (mount k p b v1 msgs)"
  unfolding mount_def effect_def
  by (rule inv_sys_callTrigger, rule inv_sys_render) (simp_all add: sched_inv_def)

lemma inv_sys_run: "inv_sys s \<Longrightarrow> inv_sys (run es s)"
  unfolding run_def by (induction es arbitrary: s) (simp_all add: inv_sys_step)

lemma props0_of_fields [simp]:
  "kind (props0_of s) = kind (displayProps (aux s))"
  "pos (props0_of s) = pos (displayProps (aux s))"
  "goals (props0_of s) = goals (displayProps (aux s))"
  "termGoal (props0_of s) = termGoal (displayProps (aux s))"
  "error (props0_of s) = error (displayProps (aux s))"
  "status (props0_of s) = st_status (aux s)"
  "messages (props0_of s) = env_messages s"
  by (simp_all add: props0_of_def Let_def)

lemma timers_trigger:
  "timers (fst (trigger now w d th)) = (if waiting th then timers th else timers th @ [(now + d, w)])"
  "waiting (fst (trigger now w d th))"
  "callbackRef (fst (trigger now w d th)) = callbackRef th"
  by (simp_all add: trigger_def)

lemma triggerDisplayUpdate_cases:
  "triggerDisplayUpdate s =
     (if waiting (thr s) then resolve DisplayUpdate s
      else s\<lparr>thr := (thr s)\<lparr>waiting := True,
             timers := timers (thr s) @ [(clock s + triggerUpdate_ms (env_processing s), DisplayUpdate)]\<rparr>\<rparr>)"
  by (simp add: triggerDisplayUpdate_def callTrigger_def trigger_def)

section \<open>Facts about pausing\<close>

lemma isPaused_settleCycle [simp]:
  "isPaused (disp (settleCycle cb w r s)) = isPaused (disp s)"
  by (simp add: settleCycle_def split: sum.splits prod.splits)

lemma isPaused_beginCycle [simp]:
  "isPaused (disp (beginCycle cb w s)) = isPaused (disp s)"
  by (simp add: beginCycle_def Let_def)

lemma isPaused_step:
  "\<not> changes_pause e \<Longrightarrow> isPaused (disp (step e s)) = isPaused (disp s)"
  by (cases e)
    (auto simp: Let_def triggerDisplayUpdate_cases
      split: list.splits prod.splits option.splits)

lemma propsRef_settleCycle_paused:
  assumes "isPaused (disp s)" and "\<not> shouldRefresh (disp s)"
  shows "propsRef (disp (settleCycle cb w r s)) =
      (if w = Detached then propsRef (disp s) else props0_of (settleCycle cb w r s))
    \<and> \<not> shouldRefresh (disp (settleCycle cb w r s))"
  using propsRef_setStates_paused [OF assms] assms
  by (simp add: settleCycle_def split: sum.splits prod.splits)

lemma frozen_step:
  assumes "isPaused (disp s)" and "\<not> shouldRefresh (disp s)"
    and "\<not> changes_pause e" and "\<not> completes_refresh e s"
  shows "propsRef (disp (step e s)) = propsRef (disp s)"
proof (cases e)
  case (RequestsSettled i r)
  show ?thesis
  proof (cases "i < length (inflight s)")
    case False
    then show ?thesis using RequestsSettled by simp
  next
    case True
    obtain cb w where cw: "inflight s ! i = (cb, w)" by (cases "inflight s ! i")
    then have w: "w = Detached"
      using assms(4) RequestsSettled True by (cases w) simp_all
    let ?u = "s\<lparr>inflight := take i (inflight s) @ drop (Suc i) (inflight s)\<rparr>"
    have "isPaused (disp ?u)" "\<not> shouldRefresh (disp ?u)" using assms by simp_all
    from propsRef_settleCycle_paused [OF this, of cb w r]
    show ?thesis using RequestsSettled True cw w by simp
  qed
next
  case TimerFired
  then show ?thesis
    using assms
    by (simp add: beginCycle_def Let_def split: list.splits prod.splits option.splits)
next
  case ClickUpdate
  then show ?thesis
    using assms by (simp add: triggerDisplayUpdate_cases)
qed (use assms in \<open>simp_all add: Let_def\<close>)

lemma refresh_step:
  assumes "isPaused (disp s)" and "\<not> shouldRefresh (disp s)" and "completes_refresh e s"
  shows "propsRef (disp (step e s)) = props0_of (step e s) \<and> \<not> shouldRefresh (disp (step e s))"
proof (cases e)
  case (RequestsSettled i r)
  then have i: "i < length (inflight s)" using assms(3) by simp
  obtain cb w where cw: "inflight s ! i = (cb, w)" by (cases "inflight s ! i")
  then have w: "w = DisplayUpdate"
    using assms(3) RequestsSettled by simp
  let ?u = "s\<lparr>inflight := take i (inflight s) @ drop (Suc i) (inflight s)\<rparr>"
  have "isPaused (disp ?u)" "\<not> shouldRefresh (disp ?u)" using assms by simp_all
  from propsRef_settleCycle_paused [OF this, of cb w r]
  show ?thesis using RequestsSettled i cw w by simp
next
  case ClickUpdate
  then show ?thesis
    using assms by (simp add: triggerDisplayUpdate_cases)
qed (use assms in simp_all)

lemma refresh_cycle:
  fixes s :: "('g, 't, 'm, 'w) sys"
  assumes "isPaused (disp s)" and "\<not> shouldRefresh (disp s)"
    and "\<not> waiting (thr s)" and "timers (thr s) = []" and "inflight s = []"
    and "callbackRef (thr s) = Some cb" and "triggerUpdate_ms (env_processing s) \<le> n"
  shows "propsRef (disp (run [ClickUpdate] s)) = propsRef (disp s)"
    and "propsRef (disp (run [ClickUpdate, Elapse n, TimerFired] s)) = propsRef (disp s)"
    and "inflight (run [ClickUpdate, Elapse n, TimerFired] s) = [(cb, DisplayUpdate)]"
    and "requests (run [ClickUpdate, Elapse n, TimerFired, RequestsSettled 0 (Inr (g, t))] s) =
          requests s @ issued (before_first_await (fetch_ops (cb_widgetsV1 cb) (cb_pos cb)))"
    and "propsRef (disp (run [ClickUpdate, Elapse n, TimerFired, RequestsSettled 0 (Inr (g, t))] s)) =
          \<lparr>kind = env_kind s, pos = env_pos s, goals = g, termGoal = t,
           error = st_error (aux s), status = Ready, messages = env_messages s\<rparr>"
    and "isPaused (disp (run [ClickUpdate, Elapse n, TimerFired, RequestsSettled 0 (Inr (g, t))] s))"
    and "timers (thr (run [ClickUpdate, Elapse n, TimerFired, RequestsSettled 0 (Inr (g, t))] s)) = []"
    and "inflight (run [ClickUpdate, Elapse n, TimerFired, RequestsSettled 0 (Inr (g, t))] s) = []"
proof -
  define s1 where "s1 = step ClickUpdate s"
  define s3 where "s3 = step TimerFired (step (Elapse n) s1)"
  define s4 where "s4 = step (RequestsSettled 0 (Inr (g, t))) s3"
  have s1: "s1 = s\<lparr>thr := (thr s)\<lparr>waiting := True,
             timers := [(clock s + triggerUpdate_ms (env_processing s), DisplayUpdate)]\<rparr>\<rparr>"
    using assms by (simp add: s1_def triggerDisplayUpdate_cases)
  have s3: "s3 = beginCycle cb DisplayUpdate
      (s\<lparr>clock := clock s + n, thr := (thr s)\<lparr>waiting := False, timers := []\<rparr>\<rparr>)"
    using assms by (simp add: s3_def s1 timeout_def)
  have f3: "inflight s3 = [(cb, DisplayUpdate)]" "isPaused (disp s3)" "\<not> shouldRefresh (disp s3)"
    "propsRef (disp s3) = propsRef (disp s)" "timers (thr s3) = []"
    "requests s3 = requests s @ issued (before_first_await (fetch_ops (cb_widgetsV1 cb) (cb_pos cb)))"
    "env_kind s3 = env_kind s" "env_pos s3 = env_pos s" "env_messages s3 = env_messages s"
    "st_error (aux s3) = st_error (aux s)"
    using assms
    by (simp_all add: s3 beginCycle_def Let_def useDelayedThrottled_def setter_defs InfoAux_render_def)
  have s4: "s4 = settleCycle cb DisplayUpdate (Inr (g, t)) (s3\<lparr>inflight := []\<rparr>)"
    by (simp add: s4_def f3)
  have a4: "aux s4 = (aux s3)\<lparr>st_goals := g, st_termGoal := t, st_status := Ready,
      displayProps := \<lparr>kind = env_kind s, pos = env_pos s, goals = g, termGoal = t,
         error = st_error (aux s)\<rparr>, shouldUpdateDisplay := False\<rparr>"
    by (simp add: s4 settleCycle_def success_steps_def setter_defs InfoAux_render_def
        mkDisplayProps_def f3)
  have p4: "propsRef (disp s4) = props0_of s4"
    using f3 by (simp add: s4 settleCycle_def)
  have e4: "env_messages s4 = env_messages s" "requests s4 = requests s3" "inflight s4 = []"
    "isPaused (disp s4)" "timers (thr s4) = []"
    using f3 by (simp_all add: s4 settleCycle_def success_steps_def useDelayedThrottled_def)
  have r1: "run [ClickUpdate] s = s1" by (simp add: run_def s1_def)
  have r3: "run [ClickUpdate, Elapse n, TimerFired] s = s3" by (simp add: run_def s3_def s1_def)
  have r4: "run [ClickUpdate, Elapse n, TimerFired, RequestsSettled 0 (Inr (g, t))] s = s4"
    by (simp add: run_def s4_def s3_def s1_def)
  show "propsRef (disp (run [ClickUpdate] s)) = propsRef (disp s)"
    unfolding r1 by (simp add: s1)
  show "propsRef (disp (run [ClickUpdate, Elapse n, TimerFired] s)) = propsRef (disp s)"
    unfolding r3 by (rule f3)
  show "inflight (run [ClickUpdate, Elapse n, TimerFired] s) = [(cb, DisplayUpdate)]"
    unfolding r3 by (rule f3)
  show "requests (run [ClickUpdate, Elapse n, TimerFired, RequestsSettled 0 (Inr (g, t))] s) =
          requests s @ issued (before_first_await (fetch_ops (cb_widgetsV1 cb) (cb_pos cb)))"
    unfolding r4 by (simp add: e4 f3)
  show "propsRef (disp (run [ClickUpdate, Elapse n, TimerFired, RequestsSettled 0 (Inr (g, t))] s)) =
          \<lparr>kind = env_kind s, pos = env_pos s, goals = g, termGoal = t,
           error = st_error (aux s), status = Ready, messages = env_messages s\<rparr>"
    unfolding r4 p4 by (simp add: props0_of_def a4 e4)
  show "isPaused (disp (run [ClickUpdate, Elapse n, TimerFired, RequestsSettled 0 (Inr (g, t))] s))"
    unfolding r4 by (rule e4)
  show "timers (thr (run [ClickUpdate, Elapse n, TimerFired, RequestsSettled 0 (Inr (g, t))] s)) = []"
    unfolding r4 by (rule e4)
  show "inflight (run [ClickUpdate, Elapse n, TimerFired, RequestsSettled 0 (Inr (g, t))] s) = []"
    unfolding r4 by (rule e4)
qed

section \<open>Facts about the widget query\<close>

text \<open>Only the two events of the widget query change its state.\<close>

lemma widgetQuery_settleCycle [simp]:
  "widgetQuery (disp (settleCycle cb w r s)) = widgetQuery (disp s)"
  by (simp add: settleCycle_def split: sum.splits prod.splits)

lemma widgetQuery_beginCycle [simp]:
  "widgetQuery (disp (beginCycle cb w s)) = widgetQuery (disp s)"
  by (simp add: beginCycle_def Let_def)

lemma widgetQuery_step:
  "\<not> widget_event e \<Longrightarrow> widgetQuery (disp (step e s)) = widgetQuery (disp s)"
  by (cases e)
    (auto simp: Let_def triggerDisplayUpdate_cases
      split: list.splits prod.splits option.splits)

lemma sys_eqI:
  fixes s s' :: "('g, 't, 'm, 'w) sys"
  assumes "env_kind s = env_kind s'" "env_pos s = env_pos s'" "env_processing s = env_processing s'"
    "env_widgetsV1 s = env_widgetsV1 s'" "env_messages s = env_messages s'" "clock s = clock s'"
    "thr s = thr s'" "aux s = aux s'" "disp s = disp s'" "inflight s = inflight s'"
    "requests s = requests s'"
  shows "s = s'"
  using assms by (cases s, cases s') simp

lemma disp_eqI:
  fixes d d' :: "('g, 't, 'm, 'w) InfoDisplay"
  assumes "isPaused d = isPaused d'" "propsRef d = propsRef d'" "shouldRefresh d = shouldRefresh d'"
    "widgetQuery d = widgetQuery d'"
  shows "d = d'"
  using assms by (cases d, cases d') simp

lemma without_widgets_simps [simp]:
  "env_kind (without_widgets s) = env_kind s"
  "env_pos (without_widgets s) = env_pos s"
  "env_processing (without_widgets s) = env_processing s"
  "env_widgetsV1 (without_widgets s) = env_widgetsV1 s"
  "env_messages (without_widgets s) = env_messages s"
  "clock (without_widgets s) = clock s"
  "thr (without_widgets s) = thr s"
  "aux (without_widgets s) = aux s"
  "inflight (without_widgets s) = inflight s"
  "requests (without_widgets s) = requests s"
  "isPaused (disp (without_widgets s)) = isPaused (disp s)"
  "propsRef (disp (without_widgets s)) = propsRef (disp s)"
  "shouldRefresh (disp (without_widgets s)) = shouldRefresh (disp s)"
  "widgetQuery (disp (without_widgets s)) = \<lparr>widgetStatus = pending, widgetResult = None\<rparr>"
  by (simp_all add: without_widgets_def)

text \<open>
  The widget query is read by nothing but the widget panels: two states that differ at
  most in the widget query go through every event to two states that differ at most
  there, and an event of the widget query changes nothing else.
\<close>

lemma same_but_widgets_iff:
  "same_but_widgets s s' \<longleftrightarrow>
     env_kind s = env_kind s' \<and> env_pos s = env_pos s' \<and> env_processing s = env_processing s'
   \<and> env_widgetsV1 s = env_widgetsV1 s' \<and> env_messages s = env_messages s' \<and> clock s = clock s'
   \<and> thr s = thr s' \<and> aux s = aux s' \<and> inflight s = inflight s' \<and> requests s = requests s'
   \<and> isPaused (disp s) = isPaused (disp s') \<and> propsRef (disp s) = propsRef (disp s')
   \<and> shouldRefresh (disp s) = shouldRefresh (disp s')"
  unfolding same_but_widgets_def
  apply (rule iffI)
   apply (metis without_widgets_simps)
  apply (rule sys_eqI; simp)
  done

lemma resolve_env [simp]:
  "env_processing (resolve w s) = env_processing s"
  "env_widgetsV1 (resolve w s) = env_widgetsV1 s"
  by (cases w; simp add: resolve_def)+

lemma sbw_renderDisplay:
  "same_but_widgets s s' \<Longrightarrow> same_but_widgets (renderDisplay s) (renderDisplay s')"
  by (simp add: same_but_widgets_iff props0_of_def)

lemma sbw_render:
  "same_but_widgets s s' \<Longrightarrow> same_but_widgets (render s) (render s')"
  by (simp add: same_but_widgets_iff props0_of_def)

lemma sbw_setState:
  "same_but_widgets s s' \<Longrightarrow> same_but_widgets (setState f s) (setState f s')"
  by (simp add: same_but_widgets_iff props0_of_def)

lemma sbw_setStates:
  "same_but_widgets s s' \<Longrightarrow> same_but_widgets (setStates fs s) (setStates fs s')"
  by (induction fs arbitrary: s s') (simp_all add: sbw_setState)

lemma sbw_callTrigger:
  "same_but_widgets s s' \<Longrightarrow>
   same_but_widgets (fst (callTrigger w d s)) (fst (callTrigger w d s'))
   \<and> snd (callTrigger w d s) = snd (callTrigger w d s')"
  by (simp add: same_but_widgets_iff)

lemma sbw_resolve:
  "same_but_widgets s s' \<Longrightarrow> same_but_widgets (resolve w s) (resolve w s')"
  by (simp add: same_but_widgets_iff props0_of_def)

lemma sbw_settleCycle:
  "same_but_widgets s s' \<Longrightarrow> same_but_widgets (settleCycle cb w r s) (settleCycle cb w r s')"
  by (auto simp: settleCycle_def sbw_resolve sbw_setStates sbw_callTrigger split: sum.splits)

lemma sbw_beginCycle:
  "same_but_widgets s s' \<Longrightarrow> same_but_widgets (beginCycle cb w s) (beginCycle cb w s')"
  using sbw_setState [of s s' "setStatus Updating"]
  by (simp add: beginCycle_def Let_def same_but_widgets_iff)

lemma sbw_field:
  "same_but_widgets s s' \<Longrightarrow> same_but_widgets (s\<lparr>env_pos := p\<rparr>) (s'\<lparr>env_pos := p\<rparr>)"
  "same_but_widgets s s' \<Longrightarrow> same_but_widgets (s\<lparr>env_processing := b\<rparr>) (s'\<lparr>env_processing := b\<rparr>)"
  "same_but_widgets s s' \<Longrightarrow> same_but_widgets (s\<lparr>env_messages := m\<rparr>) (s'\<lparr>env_messages := m\<rparr>)"
  "same_but_widgets s s' \<Longrightarrow> same_but_widgets (s\<lparr>clock := c\<rparr>) (s'\<lparr>clock := c\<rparr>)"
  "same_but_widgets s s' \<Longrightarrow> same_but_widgets (s\<lparr>thr := th\<rparr>) (s'\<lparr>thr := th\<rparr>)"
  "same_but_widgets s s' \<Longrightarrow> same_but_widgets (s\<lparr>inflight := fl\<rparr>) (s'\<lparr>inflight := fl\<rparr>)"
  by (simp_all add: same_but_widgets_iff)

lemma sbw_step:
  assumes "same_but_widgets s s'"
  shows "same_but_widgets (step e s) (step e s')"
proof -
  note eq = assms [unfolded same_but_widgets_iff]
  show ?thesis
  proof (cases e)
    case (PositionChanged p)
    then show ?thesis
      using sbw_render [OF sbw_field(1) [OF assms, of p]] eq
      by (simp add: Let_def same_but_widgets_iff)
  next
    case (ProcessingChanged b)
    then show ?thesis
      using sbw_render [OF sbw_field(2) [OF assms, of b]] eq
      by (simp add: Let_def same_but_widgets_iff)
  next
    case (MessagesChanged m)
    then show ?thesis
      using sbw_render [OF sbw_field(3) [OF assms, of m]] by simp
  next
    case (Elapse d)
    then show ?thesis
      using sbw_field(4) [OF assms] eq by simp
  next
    case TimerFired
    have "same_but_widgets (beginCycle cb w (s\<lparr>thr := th\<rparr>)) (beginCycle cb w (s'\<lparr>thr := th\<rparr>))"
      for cb w th
      by (rule sbw_beginCycle, rule sbw_field, rule assms)
    then show ?thesis
      using TimerFired eq sbw_field(5) [OF assms] assms
      by (auto simp: Let_def split: list.splits prod.splits option.splits)
  next
    case (RequestsSettled i r)
    have "same_but_widgets (settleCycle cb w r (s\<lparr>inflight := fl\<rparr>))
            (settleCycle cb w r (s'\<lparr>inflight := fl\<rparr>))" for cb w fl
      by (rule sbw_settleCycle, rule sbw_field, rule assms)
    then show ?thesis
      using RequestsSettled eq assms by (auto simp: Let_def split: prod.splits)
  next
    case WidgetQueryStarted
    then show ?thesis
      using eq by (simp add: same_but_widgets_iff props0_of_def)
  next
    case (WidgetQuerySettled r)
    then show ?thesis
      using eq by (simp add: same_but_widgets_iff props0_of_def)
  next
    case ClickUpdate
    then show ?thesis
      using eq sbw_resolve [OF assms, of DisplayUpdate] 
      by (simp add: triggerDisplayUpdate_cases same_but_widgets_iff)
  next
    case (SetPaused b)
    then show ?thesis
      using eq by (simp add: same_but_widgets_iff props0_of_def)
  next
    case (Requested act)
    then show ?thesis
      using eq assms by (simp add: same_but_widgets_iff props0_of_def)
  qed
qed

lemma sbw_run:
  "same_but_widgets s s' \<Longrightarrow> same_but_widgets (run es s) (run es s')"
  unfolding run_def by (induction es arbitrary: s s') (simp_all add: sbw_step)

lemma sbw_widget_event:
  "inv_sys s \<Longrightarrow> widget_event e \<Longrightarrow> same_but_widgets (step e s) s"
  by (cases e) (auto simp: same_but_widgets_iff inv_sys_def)


section \<open>Facts about a cycle that succeeds\<close>

lemma settle_success:
  "st_status (aux (settleCycle cb w (Inr (g, t)) s)) = Ready"
  "goals (displayProps (aux (settleCycle cb w (Inr (g, t)) s))) = g"
  "termGoal (displayProps (aux (settleCycle cb w (Inr (g, t)) s))) = t"
  "pos (displayProps (aux (settleCycle cb w (Inr (g, t)) s))) = env_pos s"
  by (simp_all add: settleCycle_def success_steps_def setter_defs InfoAux_render_def
      mkDisplayProps_def)

lemma step_settle_success:
  assumes "i < length (inflight s)"
  shows "st_status (aux (step (RequestsSettled i (Inr (g, t))) s)) = Ready"
    "goals (displayProps (aux (step (RequestsSettled i (Inr (g, t))) s))) = g"
    "termGoal (displayProps (aux (step (RequestsSettled i (Inr (g, t))) s))) = t"
    "widgetQuery (disp (step (RequestsSettled i (Inr (g, t))) s)) = widgetQuery (disp s)"
  using assms by (simp_all add: settle_success split: prod.splits)

section \<open>Facts about the scheduler\<close>

lemma calls_while_waiting:
  "waiting th \<Longrightarrow>
   calls now cs th =
     (th\<lparr>callbackRef := (if cs = [] then callbackRef th else Some (call_action (last cs)))\<rparr>,
      replicate (length cs) ResolvedImmediately)"
proof (induction cs arbitrary: now th)
  case Nil
  then show ?case by simp
next
  case (Cons c cs)
  let ?th1 = "useDelayedThrottled (call_action c) th"
  have w: "waiting ?th1"
    using Cons.prems by (simp add: useDelayedThrottled_def)
  have t: "trigger (now + call_elapsed c) (call_awaiter c) (call_ms c) ?th1 = (?th1, ResolvedImmediately)"
    using w by (simp add: trigger_def)
  show ?case
    using Cons.IH [OF w, of "now + call_elapsed c"] t
    by (simp add: useDelayedThrottled_def)
qed

section \<open>A fact about awaiting\<close>

text \<open>
  The comment in the \<^verbatim>\<open>try\<close> block says: "it is important to await both reqs at once,
  otherwise if both throw then one exception becomes unhandled". Awaiting the first
  request alone suspends the callback while the second promise has no reaction: when
  both requests fail, the second rejection is unhandled.
\<close>

lemma await_one_by_one_unhandled:
  "unhandled (\<lambda>r. True)
     (run_to_await [Issue (GetInteractiveGoals p), Issue (GetInteractiveTermGoal p), Await 0, Await 1] [])
   = [1]"
  by (simp add: unhandled_def attach_def upt_rec [of 0])

section \<open>The claims\<close>

subsection \<open>C1: the fields of the committed display state\<close>

text \<open>
  C1 fails for the position. The commit \<^verbatim>\<open>setDisplayProps(mkDisplayProps())\<close> takes
  \<^verbatim>\<open>pos\<close> from the props of the render that commits, not from the cycle that has
  finished. In the run below the requests of the first cycle are sent for \<open>posA\<close>, the
  position moves to \<open>posB\<close> while they are in flight, and the cycle succeeds with \<open>G1\<close> and
  \<open>T1\<close>. No request has been sent for \<open>posB\<close>, and the view, which is not paused, shows the
  position \<open>posB\<close> with the goals \<open>G1\<close> and the term goal \<open>T1\<close> of \<open>posA\<close> and with status
  \<open>Ready\<close>. The comment above \<^verbatim>\<open>mkDisplayProps\<close> says that the props are kept in one piece
  of state "to avoid displaying a new position before the server has sent us all the goal
  state there".
\<close>

theorem C1_position_of_another_cycle:
  "map (\<lambda>c. cb_pos (fst c)) (inflight ex_moved) = [posA]
   \<and> requests ex_moved = [GetInteractiveGoals posA, GetInteractiveTermGoal posA]
   \<and> \<not> isPaused (disp (run [RequestsSettled 0 (Inr (Some ''G1'', Some ''T1''))] ex_moved))
   \<and> pos (propsRef (disp (run [RequestsSettled 0 (Inr (Some ''G1'', Some ''T1''))] ex_moved))) = posB
   \<and> goals (propsRef (disp (run [RequestsSettled 0 (Inr (Some ''G1'', Some ''T1''))] ex_moved)))
       = Some ''G1''
   \<and> termGoal (propsRef (disp (run [RequestsSettled 0 (Inr (Some ''G1'', Some ''T1''))] ex_moved)))
       = Some ''T1''
   \<and> status (propsRef (disp (run [RequestsSettled 0 (Inr (Some ''G1'', Some ''T1''))] ex_moved)))
       = Ready
   \<and> requests (run [RequestsSettled 0 (Inr (Some ''G1'', Some ''T1''))] ex_moved)
       = [GetInteractiveGoals posA, GetInteractiveTermGoal posA]
   \<and> posA \<noteq> posB"
  by code_simp

subsection \<open>C2: the stale-document failure\<close>

text \<open>
  C2, as worded, fails in its second half. The retry is a call of the throttled
  \<^verbatim>\<open>triggerUpdate\<close>, so no request is sent when the failure arrives: the requests go out
  when the timer fires, one scheduling delay later, or with the timer that is already
  armed. They go to the position of the callback registered last. When the position has
  moved from \<open>posA\<close> to \<open>posB\<close> while the cycle for \<open>posA\<close> was in flight, the requests after
  the failure go to \<open>posB\<close>.
\<close>

theorem C2_counterexample:
  "map (\<lambda>c. cb_pos (fst c)) (inflight ex_moved) = [posA]
   \<and> requests ex_moved = [GetInteractiveGoals posA, GetInteractiveTermGoal posA]
   \<and> requests (run [RequestsSettled 0 (Inl ex_stale)] ex_moved) = requests ex_moved
   \<and> inflight (run [RequestsSettled 0 (Inl ex_stale)] ex_moved) = []
   \<and> run [RequestsSettled 0 (Inl ex_stale), TimerFired] ex_moved
       = run [RequestsSettled 0 (Inl ex_stale)] ex_moved
   \<and> requests (run [RequestsSettled 0 (Inl ex_stale), Elapse 50, TimerFired] ex_moved)
       = requests ex_moved @ [GetInteractiveGoals posB, GetInteractiveTermGoal posB]
   \<and> requests (run [RequestsSettled 0 (Inl ex_stale)] ex_inflight) = requests ex_inflight
   \<and> inflight (run [RequestsSettled 0 (Inl ex_stale)] ex_inflight) = []
   \<and> timers (thr (run [RequestsSettled 0 (Inl ex_stale)] ex_inflight)) = [(100, Detached)]
   \<and> clock (run [RequestsSettled 0 (Inl ex_stale)] ex_inflight) = 50"
  by code_simp

text \<open>
  C2, amended. When a fetch cycle fails with the code \<open>-32801\<close>, no state cell of
  \<^verbatim>\<open>InfoAux\<close> changes: the failure is not committed, the error cell and the status keep
  their values, and the drawn props stay as they are (or become the current props, when
  the cycle was awaited by a refresh). No request is sent at that moment. The throttled
  trigger is called once, after which exactly one timer is armed: the one already armed,
  or a new one at the delay of the failed cycle's closure. When that timer fires,
  exactly one fetch cycle starts, with the requests of the callback registered last: at
  the failed cycle's position when the position has not changed since.
\<close>

theorem C2_stale_retry:
  fixes s :: "('g, 't, 'm, 'w) sys"
  assumes "err_code err = Some (- 32801)" and "i < length (inflight s)"
    and "inflight s ! i = (cb, w)" and "sched_inv (thr s)"
  shows "aux (step (RequestsSettled i (Inl err)) s) = aux s
    \<and> requests (step (RequestsSettled i (Inl err)) s) = requests s
    \<and> propsRef (disp (step (RequestsSettled i (Inl err)) s)) =
        (if w = Detached then propsRef (disp s) else props0_of s)
    \<and> waiting (thr (step (RequestsSettled i (Inl err)) s))
    \<and> length (timers (thr (step (RequestsSettled i (Inl err)) s))) = 1
    \<and> timers (thr (step (RequestsSettled i (Inl err)) s)) =
        (if waiting (thr s) then timers (thr s) else [(clock s + cb_ms cb, Detached)])
    \<and> (callbackRef (thr s) = Some cb'
        \<and> timers (thr (step (RequestsSettled i (Inl err)) s)) = [(d, w')] \<and> d \<le> clock s + n \<longrightarrow>
          requests (run [RequestsSettled i (Inl err), Elapse n, TimerFired] s) =
            requests s @ issued (before_first_await (fetch_ops (cb_widgetsV1 cb') (cb_pos cb')))
        \<and> timers (thr (run [RequestsSettled i (Inl err), Elapse n, TimerFired] s)) = [])"
proof -
  let ?u = "s\<lparr>inflight := take i (inflight s) @ drop (Suc i) (inflight s)\<rparr>"
  define s' where "s' = step (RequestsSettled i (Inl err)) s"
  have s': "s' = resolve w (fst (callTrigger Detached (cb_ms cb) ?u))"
    using assms by (simp add: s'_def settleCycle_def)
  have p: "props0_of ?u = props0_of s"
    by (rule props0_of_cong) simp_all
  have th: "thr s' = fst (trigger (clock s) Detached (cb_ms cb) (thr s))"
    unfolding s' by simp
  have 1: "aux s' = aux s" "requests s' = requests s" "clock s' = clock s"
    unfolding s' by simp_all
  have 2: "propsRef (disp s') = (if w = Detached then propsRef (disp s) else props0_of s)"
    unfolding s' using p by simp
  have 3: "waiting (thr s')" "length (timers (thr s')) = 1"
    "timers (thr s') = (if waiting (thr s) then timers (thr s) else [(clock s + cb_ms cb, Detached)])"
    "callbackRef (thr s') = callbackRef (thr s)"
    using assms(4) by (auto simp: th timers_trigger sched_inv_def split: if_splits)
  have 4: "requests (run [RequestsSettled i (Inl err), Elapse n, TimerFired] s) =
            requests s @ issued (before_first_await (fetch_ops (cb_widgetsV1 cb') (cb_pos cb')))
        \<and> timers (thr (run [RequestsSettled i (Inl err), Elapse n, TimerFired] s)) = []"
    if "callbackRef (thr s) = Some cb'" "timers (thr s') = [(d, w')]" "d \<le> clock s + n"
  proof -
    have r: "run [RequestsSettled i (Inl err), Elapse n, TimerFired] s
        = step TimerFired (step (Elapse n) s')"
      by (simp add: run_def s'_def)
    show ?thesis
      unfolding r using that 1 3(4)
      by (simp add: timeout_def beginCycle_def Let_def useDelayedThrottled_def)
  qed
  show ?thesis
    unfolding s'_def [symmetric] using 1 2 3 4 by simp
qed

text \<open>The amended C2 at the first cycle of the mounted view.\<close>

theorem C2_witness:
  "err_code ex_stale = Some (- 32801) \<and> 0 < length (inflight ex_inflight)
   \<and> inflight ex_inflight ! 0 = (ex_cb, Detached) \<and> sched_inv (thr ex_inflight)
   \<and> callbackRef (thr ex_inflight) = Some ex_cb
   \<and> aux (step (RequestsSettled 0 (Inl ex_stale)) ex_inflight) = aux ex_inflight
   \<and> timers (thr (step (RequestsSettled 0 (Inl ex_stale)) ex_inflight)) = [(100, Detached)]
   \<and> requests (run [RequestsSettled 0 (Inl ex_stale), Elapse 50, TimerFired] ex_inflight) =
        requests ex_inflight @ [GetInteractiveGoals posA, GetInteractiveTermGoal posA]"
proof -
  have h: "err_code ex_stale = Some (- 32801)" "0 < length (inflight ex_inflight)"
    "inflight ex_inflight ! 0 = (ex_cb, Detached)" "sched_inv (thr ex_inflight)"
    by code_simp+
  have c: "callbackRef (thr ex_inflight) = Some ex_cb" "\<not> waiting (thr ex_inflight)"
    "clock ex_inflight = 50" "cb_ms ex_cb = 50" "cb_widgetsV1 ex_cb" "cb_pos ex_cb = posA"
    by code_simp+
  have i: "issued (before_first_await (fetch_ops True posA)) =
      [GetInteractiveGoals posA, GetInteractiveTermGoal posA]"
    by (simp add: fetch_ops_def before_first_await_def)
  show ?thesis
    using h c i C2_stale_retry [OF h, of ex_cb 100 Detached 50]
    by simp
qed

subsection \<open>C3: coalescing of trigger calls\<close>

text \<open>
  C3. While a timer is armed, any number of calls of the trigger resolve at once, leave
  the one timer and its deadline as they are, and when the timer fires exactly one
  callback runs: the action registered by the last call; afterwards no timer is left.
  Starting from an idle scheduler the first call arms the timer and awaits the cycle,
  and the same holds for the calls after it.
\<close>

theorem C3_coalescing:
  "(waiting th \<and> timers th = [(d, w0)] \<and> cs \<noteq> [] \<longrightarrow>
      snd (calls now cs th) = replicate (length cs) ResolvedImmediately
    \<and> timers (fst (calls now cs th)) = [(d, w0)]
    \<and> waiting (fst (calls now cs th))
    \<and> snd (timeout (fst (calls now cs th))) = Some (call_action (last cs), w0)
    \<and> timers (fst (timeout (fst (calls now cs th)))) = []
    \<and> snd (timeout (fst (timeout (fst (calls now cs th))))) = None)
   \<and> (\<not> waiting th \<and> timers th = [] \<longrightarrow>
      snd (calls now (c # cs) th) = AwaitsCycle # replicate (length cs) ResolvedImmediately
    \<and> timers (fst (calls now (c # cs) th)) = [(now + call_elapsed c + call_ms c, call_awaiter c)]
    \<and> snd (timeout (fst (calls now (c # cs) th))) = Some (call_action (last (c # cs)), call_awaiter c)
    \<and> timers (fst (timeout (fst (calls now (c # cs) th)))) = []
    \<and> snd (timeout (fst (timeout (fst (calls now (c # cs) th))))) = None)"
proof (intro conjI impI)
  assume a: "waiting th \<and> timers th = [(d, w0)] \<and> cs \<noteq> []"
  then have c: "calls now cs th = (th\<lparr>callbackRef := Some (call_action (last cs))\<rparr>,
      replicate (length cs) ResolvedImmediately)"
    using calls_while_waiting [of th now cs] by simp
  show "snd (calls now cs th) = replicate (length cs) ResolvedImmediately"
    by (simp add: c)
  show "timers (fst (calls now cs th)) = [(d, w0)]"
    using a by (simp add: c)
  show "waiting (fst (calls now cs th))"
    using a by (simp add: c)
  show "snd (timeout (fst (calls now cs th))) = Some (call_action (last cs), w0)"
    using a by (simp add: c timeout_def)
  show "timers (fst (timeout (fst (calls now cs th)))) = []"
    using a by (simp add: c timeout_def)
  show "snd (timeout (fst (timeout (fst (calls now cs th))))) = None"
    using a by (simp add: c timeout_def)
next
  assume a: "\<not> waiting th \<and> timers th = []"
  let ?th1 = "(useDelayedThrottled (call_action c) th)\<lparr>waiting := True,
       timers := [(now + call_elapsed c + call_ms c, call_awaiter c)]\<rparr>"
  have t: "trigger (now + call_elapsed c) (call_awaiter c) (call_ms c)
             (useDelayedThrottled (call_action c) th) = (?th1, AwaitsCycle)"
    using a by (simp add: trigger_def useDelayedThrottled_def)
  have w: "waiting ?th1" by simp
  have c: "calls now (c # cs) th =
     (?th1\<lparr>callbackRef := Some (call_action (last (c # cs)))\<rparr>,
      AwaitsCycle # replicate (length cs) ResolvedImmediately)"
    using calls_while_waiting [OF w, of "now + call_elapsed c" cs] t
    by (simp add: useDelayedThrottled_def)
  show "snd (calls now (c # cs) th) = AwaitsCycle # replicate (length cs) ResolvedImmediately"
    by (simp only: c snd_conv)
  show "timers (fst (calls now (c # cs) th)) = [(now + call_elapsed c + call_ms c, call_awaiter c)]"
    by (simp only: c fst_conv) simp
  show "snd (timeout (fst (calls now (c # cs) th))) = Some (call_action (last (c # cs)), call_awaiter c)"
    by (simp only: c fst_conv) (simp add: timeout_def)
  show "timers (fst (timeout (fst (calls now (c # cs) th)))) = []"
    by (simp only: c fst_conv) (simp add: timeout_def)
  show "snd (timeout (fst (timeout (fst (calls now (c # cs) th))))) = None"
    by (simp only: c fst_conv) (simp add: timeout_def)
qed

text \<open>C3 at two calls 30 time-units apart with a delay of 50.\<close>

theorem C3_witness:
  "\<not> waiting ex_idle \<and> timers ex_idle = []
   \<and> snd (calls 0 ex_calls ex_idle) = [AwaitsCycle, ResolvedImmediately]
   \<and> timers (fst (calls 0 ex_calls ex_idle)) = [(50, Detached)]
   \<and> snd (timeout (fst (calls 0 ex_calls ex_idle))) = Some (''fetch at t=30'', Detached)
   \<and> waiting (fst (calls 0 (tl ex_calls) (fst (calls 0 [hd ex_calls] ex_idle))))
   \<and> snd (calls 0 (tl ex_calls) (fst (calls 0 [hd ex_calls] ex_idle))) = [ResolvedImmediately]"
proof -
  have h: "\<not> waiting ex_idle \<and> timers ex_idle = []"
    by (simp add: ex_idle_def)
  have p: "waiting (fst (calls 0 [hd ex_calls] ex_idle))
      \<and> timers (fst (calls 0 [hd ex_calls] ex_idle)) = [(50, Detached)] \<and> tl ex_calls \<noteq> []"
    by (simp add: ex_idle_def ex_calls_def trigger_def useDelayedThrottled_def)
  show ?thesis
    using h p C3_coalescing [of ex_idle _ _ "tl ex_calls" 0 "hd ex_calls"]
      C3_coalescing [of "fst (calls 0 [hd ex_calls] ex_idle)" 50 Detached "tl ex_calls" 0]
    by (simp add: ex_calls_def)
qed

subsection \<open>C4: pause and refresh\<close>

text \<open>
  C4, as worded, fails twice. A refresh request made while a cycle is already pending
  runs no cycle: the awaited trigger call resolves at once, so the request applies the
  props committed so far, and the cycle that was pending is not awaited by it. In the run
  below the view is paused showing \<open>G1\<close> at \<open>posA\<close>, the position moves to \<open>posB\<close>, and the
  update link is clicked before the timer fires. The click sends no request; the cycle
  that runs afterwards commits \<open>G2\<close> at \<open>posB\<close>, and the paused view still shows \<open>G1\<close> at
  \<open>posA\<close>. And the widget panels are not frozen by the pause: the paused view shows no
  widget, the widget query settles with the widget \<open>w1\<close>, and the view, still paused,
  shows a widget panel.
\<close>

theorem C4_counterexample:
  "isPaused (disp ex_paused)
   \<and> goals (propsRef (disp ex_paused)) = Some ''G1''
   \<and> waiting (thr (run [PositionChanged posB] ex_paused))
   \<and> requests (run [PositionChanged posB, ClickUpdate] ex_paused) = requests ex_paused
   \<and> inflight (run [PositionChanged posB, ClickUpdate] ex_paused) = []
   \<and> timers (thr (run [PositionChanged posB, ClickUpdate] ex_paused)) = [(100, Detached)]
   \<and> isPaused (disp (run ex_refresh_while_pending ex_paused))
   \<and> goals (displayProps (aux (run ex_refresh_while_pending ex_paused))) = Some ''G2''
   \<and> pos (displayProps (aux (run ex_refresh_while_pending ex_paused))) = posB
   \<and> goals (propsRef (disp (run ex_refresh_while_pending ex_paused))) = Some ''G1''
   \<and> pos (propsRef (disp (run ex_refresh_while_pending ex_paused))) = posA
   \<and> inflight (run ex_refresh_while_pending ex_paused) = []
   \<and> timers (thr (run ex_refresh_while_pending ex_paused)) = []
   \<and> \<not> hasWidget (widgetQuery (disp ex_paused))
   \<and> isPaused (disp (step (WidgetQuerySettled (Resolved (Some [''w1'']))) ex_paused))
   \<and> hasWidget (widgetQuery (disp (step (WidgetQuerySettled (Resolved (Some [''w1'']))) ex_paused)))"
  by code_simp

text \<open>
  C4, amended. While the pause flag is set, every event other than a pause change leaves
  the flag set, and the drawn props (kind, position, goals, term goal, error, status and
  messages) change only when a refresh request completes. A completing refresh request
  applies the current props of \<^verbatim>\<open>InfoAux\<close> to the drawn props once and takes
  \<^verbatim>\<open>shouldRefresh\<close> back. A refresh request made while no cycle is pending arms one timer
  and changes nothing on screen; when the timer has fired and the one cycle it started
  has succeeded, the drawn props are that cycle's committed result with status \<open>Ready\<close>,
  the view is still paused, and nothing is left pending. The state of the widget query,
  from which the widget panels are drawn, is outside the pause: it changes when the
  query starts or settles, as \<^verbatim>\<open>useAsync\<close> has it, and with no other event.
\<close>

theorem C4_pause_and_refresh:
  fixes s :: "('g, 't, 'm, 'w) sys"
  assumes "isPaused (disp s)" and "\<not> shouldRefresh (disp s)"
  shows "(\<not> changes_pause e \<longrightarrow> isPaused (disp (step e s)))
    \<and> (\<not> changes_pause e \<and> \<not> completes_refresh e s \<longrightarrow>
          propsRef (disp (step e s)) = propsRef (disp s))
    \<and> (completes_refresh e s \<longrightarrow>
          propsRef (disp (step e s)) = props0_of (step e s)
        \<and> \<not> shouldRefresh (disp (step e s)))
    \<and> (\<not> widget_event e \<longrightarrow> widgetQuery (disp (step e s)) = widgetQuery (disp s))
    \<and> widgetQuery (disp (step WidgetQueryStarted s)) = useAsync_started (widgetQuery (disp s))
    \<and> widgetQuery (disp (step (WidgetQuerySettled r) s)) = useAsync_settled r (widgetQuery (disp s))
    \<and> (\<not> waiting (thr s) \<and> timers (thr s) = [] \<and> inflight s = []
        \<and> callbackRef (thr s) = Some cb \<and> triggerUpdate_ms (env_processing s) \<le> n \<longrightarrow>
          propsRef (disp (run [ClickUpdate] s)) = propsRef (disp s)
        \<and> propsRef (disp (run [ClickUpdate, Elapse n, TimerFired] s)) = propsRef (disp s)
        \<and> inflight (run [ClickUpdate, Elapse n, TimerFired] s) = [(cb, DisplayUpdate)]
        \<and> requests (run [ClickUpdate, Elapse n, TimerFired, RequestsSettled 0 (Inr (g, t))] s) =
            requests s @ issued (before_first_await (fetch_ops (cb_widgetsV1 cb) (cb_pos cb)))
        \<and> propsRef (disp (run [ClickUpdate, Elapse n, TimerFired, RequestsSettled 0 (Inr (g, t))] s)) =
            \<lparr>kind = env_kind s, pos = env_pos s, goals = g, termGoal = t,
             error = st_error (aux s), status = Ready, messages = env_messages s\<rparr>
        \<and> isPaused (disp (run [ClickUpdate, Elapse n, TimerFired, RequestsSettled 0 (Inr (g, t))] s))
        \<and> timers (thr (run [ClickUpdate, Elapse n, TimerFired, RequestsSettled 0 (Inr (g, t))] s)) = []
        \<and> inflight (run [ClickUpdate, Elapse n, TimerFired, RequestsSettled 0 (Inr (g, t))] s) = [])"
proof (intro conjI impI)
  show "isPaused (disp (step e s))" if "\<not> changes_pause e"
    using isPaused_step [OF that] assms(1) by simp
  show "propsRef (disp (step e s)) = propsRef (disp s)"
    if "\<not> changes_pause e \<and> \<not> completes_refresh e s"
    using frozen_step [OF assms] that by simp
  show "propsRef (disp (step e s)) = props0_of (step e s)" if "completes_refresh e s"
    using refresh_step [OF assms that] by simp
  show "\<not> shouldRefresh (disp (step e s))" if "completes_refresh e s"
    using refresh_step [OF assms that] by simp
  show "widgetQuery (disp (step e s)) = widgetQuery (disp s)" if "\<not> widget_event e"
    by (rule widgetQuery_step [OF that])
  show "widgetQuery (disp (step WidgetQueryStarted s)) = useAsync_started (widgetQuery (disp s))"
    by simp
  show "widgetQuery (disp (step (WidgetQuerySettled r) s)) = useAsync_settled r (widgetQuery (disp s))"
    by simp
next
  assume a: "\<not> waiting (thr s) \<and> timers (thr s) = [] \<and> inflight s = []
        \<and> callbackRef (thr s) = Some cb \<and> triggerUpdate_ms (env_processing s) \<le> n"
  then have a': "\<not> waiting (thr s)" "timers (thr s) = []" "inflight s = []"
    "callbackRef (thr s) = Some cb" "triggerUpdate_ms (env_processing s) \<le> n"
    by simp_all
  note r = refresh_cycle [OF assms a']
  show "propsRef (disp (run [ClickUpdate] s)) = propsRef (disp s)"
    by (rule r)
  show "propsRef (disp (run [ClickUpdate, Elapse n, TimerFired] s)) = propsRef (disp s)"
    by (rule r)
  show "inflight (run [ClickUpdate, Elapse n, TimerFired] s) = [(cb, DisplayUpdate)]"
    by (rule r)
  show "requests (run [ClickUpdate, Elapse n, TimerFired, RequestsSettled 0 (Inr (g, t))] s) =
            requests s @ issued (before_first_await (fetch_ops (cb_widgetsV1 cb) (cb_pos cb)))"
    by (rule r)
  show "propsRef (disp (run [ClickUpdate, Elapse n, TimerFired, RequestsSettled 0 (Inr (g, t))] s)) =
            \<lparr>kind = env_kind s, pos = env_pos s, goals = g, termGoal = t,
             error = st_error (aux s), status = Ready, messages = env_messages s\<rparr>"
    by (rule r)
  show "isPaused (disp (run [ClickUpdate, Elapse n, TimerFired, RequestsSettled 0 (Inr (g, t))] s))"
    by (rule r)
  show "timers (thr (run [ClickUpdate, Elapse n, TimerFired, RequestsSettled 0 (Inr (g, t))] s)) = []"
    by (rule r)
  show "inflight (run [ClickUpdate, Elapse n, TimerFired, RequestsSettled 0 (Inr (g, t))] s) = []"
    by (rule r)
qed

text \<open>The amended C4 at the paused view.\<close>

theorem C4_witness:
  "isPaused (disp ex_paused) \<and> \<not> shouldRefresh (disp ex_paused)
   \<and> \<not> waiting (thr ex_paused) \<and> timers (thr ex_paused) = [] \<and> inflight ex_paused = []
   \<and> callbackRef (thr ex_paused) = Some ex_cb
   \<and> propsRef (disp (step (PositionChanged posB) ex_paused)) = propsRef (disp ex_paused)
   \<and> isPaused (disp (step (PositionChanged posB) ex_paused))
   \<and> widgetQuery (disp (step (PositionChanged posB) ex_paused)) = widgetQuery (disp ex_paused)
   \<and> propsRef (disp (run [ClickUpdate, Elapse 50, TimerFired,
                           RequestsSettled 0 (Inr (Some ''G2'', Some ''T2''))] ex_paused)) =
       \<lparr>kind = Cursor, pos = posA, goals = Some ''G2'', termGoal = Some ''T2'',
        error = None, status = Ready, messages = []\<rparr>
   \<and> isPaused (disp (run [ClickUpdate, Elapse 50, TimerFired,
                           RequestsSettled 0 (Inr (Some ''G2'', Some ''T2''))] ex_paused))
   \<and> isPaused (disp (run [PositionChanged posB] ex_paused))
   \<and> \<not> shouldRefresh (disp (run [PositionChanged posB] ex_paused))
   \<and> completes_refresh ClickUpdate (run [PositionChanged posB] ex_paused)
   \<and> propsRef (disp (step ClickUpdate (run [PositionChanged posB] ex_paused))) =
       props0_of (step ClickUpdate (run [PositionChanged posB] ex_paused))
   \<and> widgetQuery (disp (step (WidgetQuerySettled (Resolved (Some [''w1'']))) ex_paused)) =
       useAsync_settled (Resolved (Some [''w1''])) (widgetQuery (disp ex_paused))"
proof -
  have h: "isPaused (disp ex_paused)" "\<not> shouldRefresh (disp ex_paused)"
    by code_simp+
  have h': "isPaused (disp (run [PositionChanged posB] ex_paused))"
    "\<not> shouldRefresh (disp (run [PositionChanged posB] ex_paused))"
    by code_simp+
  have c': "completes_refresh ClickUpdate (run [PositionChanged posB] ex_paused)"
    by code_simp
  have c: "\<not> waiting (thr ex_paused)" "timers (thr ex_paused) = []" "inflight ex_paused = []"
    "callbackRef (thr ex_paused) = Some ex_cb" "triggerUpdate_ms (env_processing ex_paused) \<le> 50"
    "env_kind ex_paused = Cursor" "env_pos ex_paused = posA" "st_error (aux ex_paused) = None"
    "env_messages ex_paused = []"
    by code_simp+
  show ?thesis
    using h c
      C4_pause_and_refresh [OF h, of "PositionChanged posB" "Resolved (Some [''w1''])" ex_cb 50
        "Some ''G2''" "Some ''T2''"]
      h' c' C4_pause_and_refresh [OF h', of ClickUpdate "Resolved None" ex_cb 50 None None]
    by (simp del: step.simps)
qed

subsection \<open>C5: a failure that is reported\<close>

text \<open>
  C5, as worded, fails where it says that the error is the only thing rendered and that
  the commit replaces the goal data. The widget panels of \<^verbatim>\<open>InfoDisplay\<close> are rendered
  whenever the widget query has returned widgets, whatever the status: with one widget
  at the position, a failed cycle shows the error banner and the widget panel. And the
  commit keeps the goals of the last successful cycle in the display props; the status
  hides the goals section, but \<^verbatim>\<open>copyGoalToComment\<close> stays defined, so the link "copy
  state to comment" is offered for the old goals beside the error.
\<close>

theorem C5_counterexample:
  "hasError (propsRef (disp (run [WidgetQuerySettled (Resolved (Some [''w1''])),
        RequestsSettled 0 (Inl (JsString ''boom''))] ex_inflight)))
   \<and> error (propsRef (disp (run [WidgetQuerySettled (Resolved (Some [''w1''])),
        RequestsSettled 0 (Inl (JsString ''boom''))] ex_inflight)))
       = Some ''Error fetching goals: boom''
   \<and> hasWidget (widgetQuery (disp (run [WidgetQuerySettled (Resolved (Some [''w1''])),
        RequestsSettled 0 (Inl (JsString ''boom''))] ex_inflight)))
   \<and> hasError (propsRef (disp (run ex_second_fails ex_inflight)))
   \<and> goals (propsRef (disp (run ex_second_fails ex_inflight))) = Some ''G1''
   \<and> copyButtonOffered (copyGoalToComment (\<lambda>g. g)
         (goals (propsRef (disp (run ex_second_fails ex_inflight)))))"
  by code_simp

text \<open>
  C5, amended. A failure of a fetch cycle that is neither the stale-document code
  \<open>-32801\<close> nor the empty sentinel sets the status to \<open>Error\<close> with the message
  "Error fetching goals: " followed by the payload, and still commits: the display props
  are replaced as a whole, with the new error and with the goals and the term goal the
  state cells still hold. Of the props handed to \<^verbatim>\<open>InfoDisplay\<close> the error banner is shown
  while the goals, the term goal and the messages are hidden by the status. When the view
  is not paused these props are the ones drawn. The state of the widget query is not
  touched.
\<close>

theorem C5_reported_failure:
  assumes "err_code err \<noteq> Some (- 32801)" and "errS err = Some m" and "m \<noteq> ''{}''"
  shows "st_status (aux (settleCycle cb w (Inl err) s)) = Error
    \<and> st_error (aux (settleCycle cb w (Inl err) s)) = Some (''Error fetching goals: '' @ m)
    \<and> displayProps (aux (settleCycle cb w (Inl err) s)) =
         \<lparr>kind = env_kind s, pos = env_pos s, goals = st_goals (aux s),
          termGoal = st_termGoal (aux s), error = Some (''Error fetching goals: '' @ m)\<rparr>
    \<and> \<not> shouldUpdateDisplay (aux (settleCycle cb w (Inl err) s))
    \<and> hasError (props0_of (settleCycle cb w (Inl err) s))
    \<and> \<not> hasGoals (props0_of (settleCycle cb w (Inl err) s))
    \<and> \<not> hasTermGoal (props0_of (settleCycle cb w (Inl err) s))
    \<and> \<not> hasMessages (props0_of (settleCycle cb w (Inl err) s))
    \<and> (\<not> isPaused (disp s) \<longrightarrow>
          propsRef (disp (settleCycle cb w (Inl err) s)) = props0_of (settleCycle cb w (Inl err) s))
    \<and> widgetQuery (disp (settleCycle cb w (Inl err) s)) = widgetQuery (disp s)"
proof -
  define msg where "msg = ''Error fetching goals: '' @ m"
  define fs :: "(('a, 'b) InfoAux \<Rightarrow> ('a, 'b) InfoAux) list"
    where "fs = [setError (Some msg), setStatus Error, setShouldUpdateDisplay True]"
  let ?s' = "settleCycle cb w (Inl err) s"
  have msg: "msg \<noteq> []" by (simp add: msg_def)
  have s': "?s' = resolve w (setStates fs s)"
    using assms by (simp add: settleCycle_def failure_steps_def onError_steps_def fs_def msg_def)
  have a: "aux ?s' = (aux s)\<lparr>st_error := Some msg, st_status := Error,
      displayProps := \<lparr>kind = env_kind s, pos = env_pos s, goals = st_goals (aux s),
          termGoal = st_termGoal (aux s), error = Some msg\<rparr>,
      shouldUpdateDisplay := False\<rparr>"
    unfolding s' fs_def by (simp add: setter_defs InfoAux_render_def mkDisplayProps_def)
  have p: "props0_of ?s' = \<lparr>kind = env_kind s, pos = env_pos s, goals = st_goals (aux s),
          termGoal = st_termGoal (aux s), error = Some msg,
          status = Error, messages = env_messages s\<rparr>"
    unfolding props0_of_def a unfolding s' by (simp add: Let_def)
  have r: "propsRef (disp ?s') = props0_of ?s'" if "\<not> isPaused (disp s)"
    unfolding s' using propsRef_setStates_running [OF that, of fs] by (simp add: fs_def)
  have q: "widgetQuery (disp ?s') = widgetQuery (disp s)"
    unfolding s' by simp
  show ?thesis
    unfolding msg_def [symmetric]
    using r msg q
    by (simp add: a p hasError_def hasGoals_def hasTermGoal_def hasMessages_def truthy_def)
qed

text \<open>The amended C5 at the first cycle of the mounted view.\<close>

theorem C5_witness:
  "err_code (JsString ''boom'') \<noteq> Some (- 32801) \<and> errS (JsString ''boom'') = Some ''boom''
   \<and> ''boom'' \<noteq> ''{}''
   \<and> st_status (aux (settleCycle ex_cb Detached (Inl (JsString ''boom'')) ex_inflight)) = Error
   \<and> hasError (props0_of (settleCycle ex_cb Detached (Inl (JsString ''boom'')) ex_inflight))
   \<and> \<not> hasGoals (props0_of (settleCycle ex_cb Detached (Inl (JsString ''boom'')) ex_inflight))"
  using C5_reported_failure [of "JsString ''boom''" "''boom''" ex_cb Detached ex_inflight]
  by simp

subsection \<open>C6: the empty sentinel\<close>

text \<open>
  C6. When the thrown value serialises to \<^verbatim>\<open>{}\<close> (or \<^verbatim>\<open>JSON.stringify\<close> yields
  \<^verbatim>\<open>undefined\<close>), the guard \<^verbatim>\<open>onError\<close> clears the error cell and leaves the status cell as
  it is; the cycle then commits, so the props handed to \<^verbatim>\<open>InfoDisplay\<close> carry no error
  and the status the cycle found.
\<close>

theorem C6_empty_error:
  fixes a :: "('g, 't) InfoAux" and s :: "('g, 't, 'm, 'w) sys"
  assumes "errS err = Some ''{}'' \<or> errS err = None"
  shows "st_error (onError err a) = None \<and> st_status (onError err a) = st_status a
    \<and> (err_code err \<noteq> Some (- 32801) \<longrightarrow>
          st_error (aux (settleCycle cb w (Inl err) s)) = None
        \<and> st_status (aux (settleCycle cb w (Inl err) s)) = st_status (aux s)
        \<and> error (displayProps (aux (settleCycle cb w (Inl err) s))) = None
        \<and> error (props0_of (settleCycle cb w (Inl err) s)) = None
        \<and> status (props0_of (settleCycle cb w (Inl err) s)) = st_status (aux s)
        \<and> \<not> hasError (props0_of (settleCycle cb w (Inl err) s)))"
proof -
  have st: "onError_steps err = ([setError None] :: (('g, 't) InfoAux \<Rightarrow> ('g, 't) InfoAux) list)"
    using assms by (auto simp: onError_steps_def)
  have g: "st_error (onError err a) = None \<and> st_status (onError err a) = st_status a"
    by (simp add: onError_def st setter_defs)
  have c: "aux (settleCycle cb w (Inl err) s) =
      (aux s)\<lparr>st_error := None,
        displayProps := \<lparr>kind = env_kind s, pos = env_pos s, goals = st_goals (aux s),
          termGoal = st_termGoal (aux s), error = None\<rparr>,
        shouldUpdateDisplay := False\<rparr>"
    if "err_code err \<noteq> Some (- 32801)"
    using that by (simp add: settleCycle_def failure_steps_def st setter_defs InfoAux_render_def
        mkDisplayProps_def)
  show ?thesis
    using g by (simp add: c props0_of_def hasError_def truthy_def)
qed

text \<open>C6 at the first cycle of the mounted view.\<close>

theorem C6_witness:
  "(errS (JsOther None (Some ''{}'')) = Some ''{}'' \<or> errS (JsOther None (Some ''{}'')) = None)
   \<and> err_code (JsOther None (Some ''{}'')) \<noteq> Some (- 32801)
   \<and> st_error (aux (settleCycle ex_cb Detached (Inl (JsOther None (Some ''{}''))) ex_inflight)) = None
   \<and> st_status (aux (settleCycle ex_cb Detached (Inl (JsOther None (Some ''{}''))) ex_inflight))
       = st_status (aux ex_inflight)"
  using C6_empty_error [of "JsOther None (Some ''{}'')" "aux ex_inflight" ex_cb Detached ex_inflight]
  by simp

subsection \<open>C7: a widget query that is not supported\<close>

text \<open>
  C7. Let the widget query fail with a value that is "method not found", so that the
  promise given to \<^verbatim>\<open>useAsync\<close> settles as \<^verbatim>\<open>discardMethodNotFound\<close> has it. Then the widget
  list is undefined, no widget panel is shown, and the query counts as resolved, not as
  errored. The failure is never surfaced: whatever events follow, the state cells of
  \<^verbatim>\<open>InfoAux\<close>, the drawn props, the pause flag and the requests sent are those of the run
  without the failure. So a cycle in flight whose goal requests succeed, before or after
  the widget query has failed, ends with status \<open>Ready\<close>, with its goals and term goal, with
  no error banner and without widgets, and a view that is not paused draws just that.
  A failure that is not "method not found" is labelled "(errored)" on the widget panels.
  The statement is about the states that satisfy \<open>inv_sys\<close>, which holds after mounting
  and after every event.
\<close>

theorem C7_widget_method_not_found:
  fixes s :: "('g, 't, 'm, 'w) sys"
  assumes "methodNotFound e" and "inv_sys s"
  shows "let W = WidgetQuerySettled (discardMethodNotFound methodNotFound (Rejected e)) in
      widgets (widgetQuery (disp (step W s))) = None
    \<and> \<not> hasWidget (widgetQuery (disp (step W s)))
    \<and> widgetStatus (widgetQuery (disp (step W s))) = resolved
    \<and> widgetLabel (widgetQuery (disp (step W s))) = []
    \<and> aux (run (W # es) s) = aux (run es s)
    \<and> propsRef (disp (run (W # es) s)) = propsRef (disp (run es s))
    \<and> isPaused (disp (run (W # es) s)) = isPaused (disp (run es s))
    \<and> requests (run (W # es) s) = requests (run es s)
    \<and> (i < length (inflight s) \<longrightarrow>
          st_status (aux (run [W, RequestsSettled i (Inr (g, t))] s)) = Ready
        \<and> status (props0_of (run [W, RequestsSettled i (Inr (g, t))] s)) = Ready
        \<and> goals (props0_of (run [W, RequestsSettled i (Inr (g, t))] s)) = g
        \<and> termGoal (props0_of (run [W, RequestsSettled i (Inr (g, t))] s)) = t
        \<and> \<not> hasError (props0_of (run [W, RequestsSettled i (Inr (g, t))] s))
        \<and> (isPaused (disp s) \<or>
             propsRef (disp (run [W, RequestsSettled i (Inr (g, t))] s)) =
               props0_of (run [W, RequestsSettled i (Inr (g, t))] s))
        \<and> widgets (widgetQuery (disp (run [W, RequestsSettled i (Inr (g, t))] s))) = None
        \<and> \<not> hasWidget (widgetQuery (disp (run [W, RequestsSettled i (Inr (g, t))] s)))
        \<and> st_status (aux (run [RequestsSettled i (Inr (g, t)), W] s)) = Ready
        \<and> \<not> hasError (props0_of (run [RequestsSettled i (Inr (g, t)), W] s))
        \<and> widgets (widgetQuery (disp (run [RequestsSettled i (Inr (g, t)), W] s))) = None)
    \<and> (\<not> methodNotFound e' \<longrightarrow>
          widgetLabel (widgetQuery (disp (step (WidgetQuerySettled
            (discardMethodNotFound methodNotFound (Rejected e'))) s))) = '' (errored)'')"
proof -
  define W :: "('g, 't, 'm, 'w) event"
    where "W = WidgetQuerySettled (discardMethodNotFound methodNotFound (Rejected e))"
  have W: "W = WidgetQuerySettled (Resolved None)"
    using assms(1) by (simp add: W_def discardMethodNotFound_def)
  have q: "widgetQuery (disp (step W s')) =
      (widgetQuery (disp s'))\<lparr>widgetStatus := resolved, widgetResult := None\<rparr>" for s'
    by (simp add: W useAsync_settled_def)
  have a: "aux (step W s') = aux s'" "inflight (step W s') = inflight s'"
    "env_messages (step W s') = env_messages s'" for s'
    by (simp_all add: W)
  have p: "props0_of (step W s') = props0_of s'" for s'
    by (rule props0_of_cong) (simp_all add: a)
  have "same_but_widgets (step W s) s"
    by (rule sbw_widget_event [OF assms(2)]) (simp add: W)
  then have "same_but_widgets (run es (step W s)) (run es s)"
    by (rule sbw_run)
  then have n: "same_but_widgets (run (W # es) s) (run es s)"
    by (simp add: run_def)
  note n' = n [unfolded same_but_widgets_iff]
  have r1: "st_status (aux (run [W, RequestsSettled i (Inr (g, t))] s)) = Ready"
    "goals (displayProps (aux (run [W, RequestsSettled i (Inr (g, t))] s))) = g"
    "termGoal (displayProps (aux (run [W, RequestsSettled i (Inr (g, t))] s))) = t"
    "widgetQuery (disp (run [W, RequestsSettled i (Inr (g, t))] s)) = widgetQuery (disp (step W s))"
    if "i < length (inflight s)"
    using step_settle_success [of i "step W s" g t] that by (simp_all add: run_def a)
  have r2: "st_status (aux (run [RequestsSettled i (Inr (g, t)), W] s)) = Ready"
    "widgetResult (widgetQuery (disp (run [RequestsSettled i (Inr (g, t)), W] s))) = None"
    if "i < length (inflight s)"
    using step_settle_success [of i s g t] that by (simp_all add: run_def a q)
  have i1: "inv_sys (run [W, RequestsSettled i (Inr (g, t))] s)"
    by (rule inv_sys_run [OF assms(2)])
  have pz: "isPaused (disp (run [W, RequestsSettled i (Inr (g, t))] s)) = isPaused (disp s)"
  proof -
    have "isPaused (disp (step (RequestsSettled i (Inr (g, t))) (step W s))) =
        isPaused (disp (step W s))"
      by (rule isPaused_step) simp
    moreover have "isPaused (disp (step W s)) = isPaused (disp s)"
      by (rule isPaused_step) (simp add: W)
    ultimately show ?thesis
      by (simp only: run_def fold_simps comp_apply id_apply)
  qed
  have f: "isPaused (disp s) \<or>
             propsRef (disp (run [W, RequestsSettled i (Inr (g, t))] s)) =
               props0_of (run [W, RequestsSettled i (Inr (g, t))] s)"
    using i1 pz by (auto simp: inv_sys_def)
  have x: "widgetLabel (widgetQuery (disp (step (WidgetQuerySettled
            (discardMethodNotFound methodNotFound (Rejected e'))) s))) = '' (errored)''"
    if "\<not> methodNotFound e'"
    using that by (simp add: discardMethodNotFound_def useAsync_settled_def widgetLabel_def)
  show ?thesis
    unfolding Let_def W_def [symmetric]
    using n' r1 r2 f x
    by (simp add: q widgets_def hasWidget_def widgetLabel_def hasError_def p)
qed

text \<open>C7 at the view whose first cycle is in flight.\<close>

theorem C7_witness:
  "ex_methodNotFound ex_noWidgets \<and> inv_sys ex_inflight \<and> 0 < length (inflight ex_inflight)
   \<and> \<not> isPaused (disp ex_inflight)
   \<and> status (propsRef (disp (run
        [WidgetQuerySettled (discardMethodNotFound ex_methodNotFound (Rejected ex_noWidgets)),
         RequestsSettled 0 (Inr (Some ''G1'', Some ''T1''))] ex_inflight))) = Ready
   \<and> goals (propsRef (disp (run
        [WidgetQuerySettled (discardMethodNotFound ex_methodNotFound (Rejected ex_noWidgets)),
         RequestsSettled 0 (Inr (Some ''G1'', Some ''T1''))] ex_inflight))) = Some ''G1''
   \<and> widgets (widgetQuery (disp (run
        [WidgetQuerySettled (discardMethodNotFound ex_methodNotFound (Rejected ex_noWidgets)),
         RequestsSettled 0 (Inr (Some ''G1'', Some ''T1''))] ex_inflight))) = None
   \<and> \<not> ex_methodNotFound (JsString ''boom'')
   \<and> widgetLabel (widgetQuery (disp (step (WidgetQuerySettled
        (discardMethodNotFound ex_methodNotFound (Rejected (JsString ''boom'')))) ex_inflight)))
       = '' (errored)''"
proof -
  have h: "ex_methodNotFound ex_noWidgets" "inv_sys ex_inflight"
    "0 < length (inflight ex_inflight)" "\<not> isPaused (disp ex_inflight)"
    "\<not> ex_methodNotFound (JsString ''boom'')"
    by code_simp+
  show ?thesis
    using h C7_widget_method_not_found
        [of ex_methodNotFound ex_noWidgets ex_inflight "[]" 0 "Some ''G1''" "Some ''T1''"
          "JsString ''boom''"]
    by (simp add: Let_def del: step.simps)
qed

subsection \<open>C8: the scheduling delay\<close>




subsection \<open>C9: both requests before the first await\<close>

text \<open>
  C9. On the modern and on the legacy path both requests are sent before the callback
  first suspends and none is sent later; when it suspends, every promise of the cycle has
  a reaction attached, so whichever requests fail, no rejection is unhandled.
\<close>

theorem C9_requests_before_await:
  "issued (before_first_await (fetch_ops True p)) = [GetInteractiveGoals p, GetInteractiveTermGoal p]
   \<and> issued (before_first_await (fetch_ops False p)) = [RequestPlainGoal p, RequestPlainTermGoal p]
   \<and> issued (fetch_ops v1 p) = issued (before_first_await (fetch_ops v1 p))
   \<and> unhandled fails (run_to_await (fetch_ops v1 p) []) = []"
  apply (cases v1)
  apply (simp_all add: fetch_ops_def before_first_await_def unhandled_def attach_def upt_rec [of 0] )
  done

subsection \<open>C10: copy state to comment\<close>

text \<open>
  C10. \<^verbatim>\<open>copyGoalToComment\<close> is defined exactly when the goals of the drawn props are
  present. Without goals it is undefined, the link "copy state to comment" is not
  offered, and a \<^verbatim>\<open>copyToComment\<close> action requested by the editor copies nothing.
\<close>

theorem C10_copy_needs_goals:
  "(copyGoalToComment goalsToString g = None \<longleftrightarrow> g = None)
   \<and> (copyButtonOffered (copyGoalToComment goalsToString g) \<longleftrightarrow> g \<noteq> None)
   \<and> (goals props = None \<longrightarrow>
        copyGoalToComment goalsToString (goals props) = None
      \<and> \<not> copyButtonOffered (copyGoalToComment goalsToString (goals props))
      \<and> onCopyToCommentRequested goalsToString props act = [])"
  by (cases g) (simp_all add: copyGoalToComment_def copyButtonOffered_def onCopyToCommentRequested_def)

text \<open>C10 at the props of a cursor view without goals.\<close>

theorem C10_witness:
  "goals \<lparr>kind = Cursor, pos = posA, goals = None :: string option,
          termGoal = Some ''T'', error = None, status = Ready, messages = [''m'']\<rparr> = None
   \<and> \<not> copyButtonOffered (copyGoalToComment (\<lambda>g. g)
        (goals \<lparr>kind = Cursor, pos = posA, goals = None :: string option,
                termGoal = Some ''T'', error = None, status = Ready, messages = [''m'']\<rparr>))
   \<and> onCopyToCommentRequested (\<lambda>g. g)
        \<lparr>kind = Cursor, pos = posA, goals = None :: string option,
         termGoal = Some ''T'', error = None, status = Ready, messages = [''m'']\<rparr>
        CopyToComment = []"
  using C10_copy_needs_goals [of "\<lambda>g. g" None
      "\<lparr>kind = Cursor, pos = posA, goals = None :: string option,
        termGoal = Some ''T'', error = None, status = Ready, messages = [''m'']\<rparr>" CopyToComment]
  by (simp add: copyGoalToComment_def)

end
